theory Spec2Isabelle
  imports Complex_Main "HOL-Library.AList"
begin

section \<open>Values, exceptions and the environment of \<open>secrets_client.py\<close>\<close>

text \<open>
  Python values as they come out of \<open>json.loads\<close>: \<open>None\<close>, booleans, numbers, strings,
  lists and dictionaries. A dictionary keeps its items in insertion order. Finite floats
  are represented by the number they denote.
\<close>

datatype pyval =
    PNone
  | PBool bool
  | PInt int
  | PFloat real
  | PStr string
  | PList "pyval list"
  | PDict "(string \<times> pyval) list"

text \<open>Truth value of a Python object, as \<open>and\<close> and \<open>if\<close> test it.\<close>

fun truthy :: "pyval \<Rightarrow> bool" where
  "truthy PNone = False"
| "truthy (PBool b) = b"
| "truthy (PInt i) = (i \<noteq> 0)"
| "truthy (PFloat x) = (x \<noteq> 0)"
| "truthy (PStr s) = (s \<noteq> [])"
| "truthy (PList xs) = (xs \<noteq> [])"
| "truthy (PDict kvs) = (kvs \<noteq> [])"

text \<open>Only a dictionary has the method \<open>get\<close>; on any other value the call raises.\<close>

fun is_dict :: "pyval \<Rightarrow> bool" where
  "is_dict (PDict kvs) = True"
| "is_dict v = False"

text \<open>
  The exceptions that travel through the two classes. \<open>ClientError code message\<close> is
  botocore's error with \<open>e.response['Error']['Code']\<close> and \<open>['Message']\<close>;
  \<open>BotoCoreError\<close> stands for every failure of the SDK call that is not a \<open>ClientError\<close>;
  \<open>DownstreamError m\<close> is an exception raised by the query whose \<open>str\<close> is \<open>m\<close>;
  \<open>PyException m\<close> is the plain \<open>Exception(m)\<close>.
\<close>

datatype exn =
    ClientError string string
  | BotoCoreError string
  | SecretNotFoundError string
  | SecretRotationInProgressError string
  | SecretAccessDeniedError string
  | SecretDecryptionError string
  | JSONDecodeError
  | KeyError string
  | DownstreamError string
  | PyException string

text \<open>The response dictionary of \<open>get_secret_value\<close>; an absent key is \<open>None\<close>.\<close>

record response =
  SecretString :: "string option"
  SecretBinary :: "string option"
  VersionId :: string

text \<open>One event per \<open>print\<close> statement of the two classes, in the order printed.\<close>

datatype event =
    CacheHit string
  | Fetched string string
  | RotationAvailable string
  | CacheInvalidated string
  | CacheCleared
  | Fallback
  | AllFailed
  | ConnectTrying string
  | ConnectSuccess string
  | ConnectFailed string
  | QueryExecuting string
  | AuthFailed

text \<open>
  What the code calls and does not define. \<open>get_secret_value n\<close> is the store's answer to
  the \<open>n\<close>-th request made through \<open>self.client\<close>, \<open>time_time n\<close> the \<open>n\<close>-th reading of the
  clock (read as a real number of seconds), \<open>json_loads\<close> and \<open>b64encode\<close> the library
  functions (\<open>None\<close>: the text is not JSON). \<open>db_connect n\<close> is the connection code that
  \<open>_try_connect\<close> leaves as a placeholder, at the \<open>n\<close>-th attempt (\<open>False\<close>: it raised), and
  \<open>run_query n\<close> the query that \<open>execute_with_retry\<close> simulates after printing its line
  \<open>[QUERY]\<close>, at loop index \<open>n\<close> (\<open>Some m\<close>: it raised an exception whose text is \<open>m\<close>).
\<close>

record env =
  get_secret_value :: "nat \<Rightarrow> string \<Rightarrow> string \<Rightarrow> exn + response"
  time_time :: "nat \<Rightarrow> real"
  json_loads :: "string \<Rightarrow> pyval option"
  b64encode :: "string \<Rightarrow> string"
  db_connect :: "nat \<Rightarrow> pyval \<Rightarrow> bool"
  run_query :: "nat \<Rightarrow> string \<Rightarrow> string option"

text \<open>The simulation the file ships: connecting and querying never raise.\<close>

definition simulated :: "env \<Rightarrow> env" where
  "simulated E = E\<lparr>db_connect := (\<lambda>n c. True), run_query := (\<lambda>n q. None)\<rparr>"

section \<open>Strings\<close>

text \<open>\<open>s.startswith(p)\<close>.\<close>

fun startswith :: "string \<Rightarrow> string \<Rightarrow> bool" where
  "startswith s [] = True"
| "startswith [] (p # ps) = False"
| "startswith (c # cs) (p # ps) = (c = p \<and> startswith cs ps)"

text \<open>\<open>sub in s\<close>.\<close>

fun str_contains :: "string \<Rightarrow> string \<Rightarrow> bool" where
  "str_contains sub [] = (sub = [])"
| "str_contains sub (c # cs) = (startswith (c # cs) sub \<or> str_contains sub cs)"

text \<open>\<open>s.lower()\<close> on ASCII text.\<close>

definition lower_char :: "char \<Rightarrow> char" where
  "lower_char c =
     (let n = (of_char c :: nat) in if 65 \<le> n \<and> n \<le> 90 then char_of (n + 32) else c)"

definition lower :: "string \<Rightarrow> string" where
  "lower s = map lower_char s"

section \<open>\<open>SecretsClient\<close>\<close>

record cache_entry =
  entry_value :: pyval
  entry_version_id :: string
  entry_timestamp :: real

text \<open>
  The object's fields \<open>cache\<close> (a dictionary, in insertion order) and \<open>cache_ttl\<close>, with
  the effects it has on the outside: the requests sent through \<open>self.client\<close>, the number
  of clock readings taken, and the lines printed.
\<close>

record secrets_client =
  cache :: "(string \<times> cache_entry) list"
  cache_ttl :: int
  requests :: "(string \<times> string) list"
  ticks :: nat
  stdout :: "event list"

definition init_client :: "int \<Rightarrow> secrets_client" where
  "init_client ttl = \<lparr>cache = [], cache_ttl = ttl, requests = [], ticks = 0, stdout = []\<rparr>"

definition print :: "event \<Rightarrow> secrets_client \<Rightarrow> secrets_client" where
  "print ev s = s\<lparr>stdout := stdout s @ [ev]\<rparr>"

text \<open>\<open>f"{secret_id}:{version_stage}"\<close>.\<close>

definition cache_key :: "string \<Rightarrow> string \<Rightarrow> string" where
  "cache_key secret_id version_stage = secret_id @ '':'' @ version_stage"

text \<open>Lines 77 to 82: the payload of a response.\<close>

definition parse_secret :: "env \<Rightarrow> response \<Rightarrow> exn + pyval" where
  "parse_secret E resp =
     (case SecretString resp of
        Some txt \<Rightarrow>
          (case json_loads E txt of
             None \<Rightarrow> Inl JSONDecodeError
           | Some v \<Rightarrow> Inr v)
      | None \<Rightarrow>
          (case SecretBinary resp of
             None \<Rightarrow> Inl (KeyError ''SecretBinary'')
           | Some b \<Rightarrow> Inr (PDict [(''binary'', PStr (b64encode E b))])))"

text \<open>
  Lines 94 to 118: the handler \<open>except ClientError as e\<close>. An exception that is not a
  \<open>ClientError\<close> is not caught and leaves \<open>get_secret\<close> as it is.
\<close>

definition translate_error :: "string \<Rightarrow> exn \<Rightarrow> exn" where
  "translate_error secret_id e =
     (case e of
        ClientError error_code msg \<Rightarrow>
          if error_code = ''ResourceNotFoundException'' then
            SecretNotFoundError (''Secret not found: '' @ secret_id)
          else if error_code = ''InvalidRequestException'' then
            (if str_contains ''pending'' (lower msg) then
               SecretRotationInProgressError (''Secret rotation in progress for '' @ secret_id)
             else e)
          else if error_code = ''AccessDeniedException'' then
            SecretAccessDeniedError (''Access denied to '' @ secret_id)
          else if error_code = ''DecryptionFailure'' then
            SecretDecryptionError (''Cannot decrypt '' @ secret_id @ '' - check KMS permissions'')
          else e
      | _ \<Rightarrow> e)"

text \<open>Lines 70 to 118: the \<open>try\<close> statement of \<open>get_secret\<close>.\<close>

definition fetch_secret ::
  "env \<Rightarrow> string \<Rightarrow> string \<Rightarrow> secrets_client \<Rightarrow> (exn + pyval) \<times> secrets_client" where
  "fetch_secret E secret_id version_stage s =
     (let s1 = s\<lparr>requests := requests s @ [(secret_id, version_stage)]\<rparr> in
      case get_secret_value E (length (requests s)) secret_id version_stage of
        Inl e \<Rightarrow> (Inl (translate_error secret_id e), s1)
      | Inr resp \<Rightarrow>
          (case parse_secret E resp of
             Inl e \<Rightarrow> (Inl (translate_error secret_id e), s1)
           | Inr secret_value \<Rightarrow>
               (let s2 = s1\<lparr>cache :=
                            AList.update (cache_key secret_id version_stage)
                              \<lparr>entry_value = secret_value,
                               entry_version_id = VersionId resp,
                               entry_timestamp = time_time E (ticks s1)\<rparr>
                              (cache s1),
                          ticks := Suc (ticks s1)\<rparr>
                in (Inr secret_value, print (Fetched secret_id (take 8 (VersionId resp))) s2))))"

text \<open>Lines 39 to 118.\<close>

definition get_secret ::
  "env \<Rightarrow> string \<Rightarrow> string \<Rightarrow> bool \<Rightarrow> secrets_client \<Rightarrow> (exn + pyval) \<times> secrets_client" where
  "get_secret E secret_id version_stage use_cache s =
     (case (if use_cache then map_of (cache s) (cache_key secret_id version_stage) else None) of
        Some cached \<Rightarrow>
          (let s1 = s\<lparr>ticks := Suc (ticks s)\<rparr> in
           if time_time E (ticks s) - entry_timestamp cached < real_of_int (cache_ttl s) then
             (Inr (entry_value cached), print (CacheHit secret_id) s1)
           else fetch_secret E secret_id version_stage s1)
      | None \<Rightarrow> fetch_secret E secret_id version_stage s)"

text \<open>The dictionary that \<open>get_both_versions\<close> returns.\<close>

record versions =
  current :: pyval
  pending :: pyval
  is_rotating :: bool

text \<open>
  Lines 120 to 146. The handler of the second fetch is
  \<open>except (ClientError, SecretNotFoundError)\<close>; every other exception leaves the method.
\<close>

definition get_both_versions ::
  "env \<Rightarrow> string \<Rightarrow> secrets_client \<Rightarrow> (exn + versions) \<times> secrets_client" where
  "get_both_versions E secret_id s =
     (let result = \<lparr>current = PNone, pending = PNone, is_rotating = False\<rparr> in
      case get_secret E secret_id ''AWSCURRENT'' True s of
        (Inl e, s1) \<Rightarrow> (Inl e, s1)
      | (Inr cur, s1) \<Rightarrow>
          (let result = result\<lparr>current := cur\<rparr> in
           case get_secret E secret_id ''AWSPENDING'' True s1 of
             (Inr pen, s2) \<Rightarrow>
               (Inr (result\<lparr>pending := pen, is_rotating := True\<rparr>),
                print (RotationAvailable secret_id) s2)
           | (Inl (ClientError c m), s2) \<Rightarrow> (Inr result, s2)
           | (Inl (SecretNotFoundError m), s2) \<Rightarrow> (Inr result, s2)
           | (Inl e, s2) \<Rightarrow> (Inl e, s2)))"

text \<open>
  Lines 148 to 162. \<open>if secret_id\<close> is false for \<open>None\<close> and for the empty string. The
  keys to remove are collected first and deleted one by one.
\<close>

definition invalidate_cache :: "string option \<Rightarrow> secrets_client \<Rightarrow> secrets_client" where
  "invalidate_cache secret_id s =
     (case secret_id of
        Some p \<Rightarrow>
          if p \<noteq> [] then
            (let keys_to_remove = filter (\<lambda>k. startswith k p) (map fst (cache s)) in
             print (CacheInvalidated p)
               (s\<lparr>cache := fold AList.delete keys_to_remove (cache s)\<rparr>))
          else print CacheCleared (s\<lparr>cache := []\<rparr>)
      | None \<Rightarrow> print CacheCleared (s\<lparr>cache := []\<rparr>))"

section \<open>\<open>DatabaseConnectionWithRotation\<close>\<close>

text \<open>
  The fields \<open>secret_id\<close>, \<open>secrets\<close> and \<open>current_credentials\<close> (the field \<open>connection\<close>
  is never assigned after construction), and the number of connection attempts made.
\<close>

record db_connection =
  secret_id :: string
  secrets :: secrets_client
  current_credentials :: pyval
  connects :: nat

definition init_db :: "string \<Rightarrow> db_connection" where
  "init_db sid =
     \<lparr>secret_id = sid, secrets = init_client 300, current_credentials = PNone, connects = 0\<rparr>"

definition db_print :: "event \<Rightarrow> db_connection \<Rightarrow> db_connection" where
  "db_print ev d = d\<lparr>secrets := print ev (secrets d)\<rparr>"

text \<open>
  Lines 213 to 235. \<open>credentials.get\<close> raises on a value that is not a dictionary, before
  anything is printed; every exception of the body is caught and gives \<open>False\<close>.
\<close>

definition try_connect ::
  "env \<Rightarrow> pyval \<Rightarrow> string \<Rightarrow> db_connection \<Rightarrow> bool \<times> db_connection" where
  "try_connect E credentials version d =
     (if \<not> is_dict credentials then (False, db_print (ConnectFailed version) d)
      else
        (let d1 = db_print (ConnectTrying version) d;
             d2 = d1\<lparr>connects := Suc (connects d1)\<rparr>
         in if db_connect E (connects d1) credentials then
              (True, db_print (ConnectSuccess version) (d2\<lparr>current_credentials := credentials\<rparr>))
            else (False, db_print (ConnectFailed version) d2)))"

text \<open>Lines 193 to 211.\<close>

definition connect :: "env \<Rightarrow> db_connection \<Rightarrow> (exn + bool) \<times> db_connection" where
  "connect E d =
     (case get_both_versions E (secret_id d) (secrets d) of
        (Inl e, s1) \<Rightarrow> (Inl e, d\<lparr>secrets := s1\<rparr>)
      | (Inr vs, s1) \<Rightarrow>
          (case try_connect E (current vs) ''CURRENT'' (d\<lparr>secrets := s1\<rparr>) of
             (True, d1) \<Rightarrow> (Inr True, d1)
           | (False, d1) \<Rightarrow>
               if is_rotating vs \<and> truthy (pending vs) then
                 (case try_connect E (pending vs) ''PENDING'' (db_print Fallback d1) of
                    (True, d2) \<Rightarrow> (Inr True, d2)
                  | (False, d2) \<Rightarrow> (Inr False, db_print AllFailed d2))
               else (Inr False, db_print AllFailed d1)))"

text \<open>The test of line 248 on \<open>str(e)\<close>.\<close>

definition is_auth_failure :: "string \<Rightarrow> bool" where
  "is_auth_failure msg =
     (str_contains ''authentication'' (lower msg) \<or> str_contains ''password'' (lower msg))"

text \<open>
  Lines 241 to 257: the loop \<open>for attempt in range(max_retries + 1)\<close>, from index
  \<open>attempt\<close> on, and the \<open>raise\<close> after it. An exception of \<open>connect\<close> inside the handler
  leaves the method.
\<close>

function retry_loop ::
  "env \<Rightarrow> string \<Rightarrow> int \<Rightarrow> int \<Rightarrow> db_connection \<Rightarrow> (exn + pyval) \<times> db_connection" where
  "retry_loop E query max_retries attempt d =
     (if attempt < max_retries + 1 then
        (let d1 = db_print (QueryExecuting (take 50 query)) d in
         case run_query E (nat attempt) query of
           None \<Rightarrow> (Inr (PDict [(''result'', PStr ''success'')]), d1)
         | Some msg \<Rightarrow>
             if is_auth_failure msg then
               (let d2 = db_print AuthFailed d1;
                    d3 = d2\<lparr>secrets := invalidate_cache (Some (secret_id d2)) (secrets d2)\<rparr>
                in if attempt < max_retries then
                     (case connect E d3 of
                        (Inl e, d4) \<Rightarrow> (Inl e, d4)
                      | (Inr b, d4) \<Rightarrow> retry_loop E query max_retries (attempt + 1) d4)
                   else (Inl (DownstreamError msg), d3))
             else (Inl (DownstreamError msg), d1))
      else (Inl (PyException ''Max retries exceeded''), d))"
  by pat_completeness auto
termination
  by (relation "measure (\<lambda>(E, query, max_retries, attempt, d). nat (max_retries + 1 - attempt))")
    auto

text \<open>Lines 237 to 257.\<close>

definition execute_with_retry ::
  "env \<Rightarrow> string \<Rightarrow> int \<Rightarrow> db_connection \<Rightarrow> (exn + pyval) \<times> db_connection" where
  "execute_with_retry E query max_retries d = retry_loop E query max_retries 0 d"

section \<open>Notions of the specification\<close>

text \<open>
  The cache holds a record for the key that is younger than the time to live at the
  next reading of the clock: the test of lines 64 to 66.
\<close>

definition cache_fresh :: "env \<Rightarrow> string \<Rightarrow> string \<Rightarrow> secrets_client \<Rightarrow> bool" where
  "cache_fresh E sid version_stage s =
     (case map_of (cache s) (cache_key sid version_stage) of
        None \<Rightarrow> False
      | Some cached \<Rightarrow>
          time_time E (ticks s) - entry_timestamp cached < real_of_int (cache_ttl s))"

text \<open>The four exception classes the file defines (lines 166 to 176).\<close>

fun typed_failure :: "exn \<Rightarrow> bool" where
  "typed_failure (SecretNotFoundError m) = True"
| "typed_failure (SecretRotationInProgressError m) = True"
| "typed_failure (SecretAccessDeniedError m) = True"
| "typed_failure (SecretDecryptionError m) = True"
| "typed_failure e = False"

text \<open>The exceptions that the handler of the pending probe (line 143) catches.\<close>

fun probe_tolerated :: "exn \<Rightarrow> bool" where
  "probe_tolerated (ClientError c m) = True"
| "probe_tolerated (SecretNotFoundError m) = True"
| "probe_tolerated e = False"




text \<open>
  Every attempt of the query prints one line \<open>[QUERY]\<close>, every call of
  \<open>invalidate_cache\<close> one line \<open>[CACHE]\<close>.
\<close>

fun is_query :: "event \<Rightarrow> bool" where
  "is_query (QueryExecuting q) = True"
| "is_query ev = False"

fun is_invalidation :: "event \<Rightarrow> bool" where
  "is_invalidation (CacheInvalidated p) = True"
| "is_invalidation CacheCleared = True"
| "is_invalidation ev = False"

definition attempts :: "secrets_client \<Rightarrow> nat" where
  "attempts s = length (filter is_query (stdout s))"

definition invalidations :: "secrets_client \<Rightarrow> nat" where
  "invalidations s = length (filter is_invalidation (stdout s))"

text \<open>Attempt \<open>k\<close> of the query raises an error of the authentication class.\<close>

definition auth_failed_at :: "env \<Rightarrow> string \<Rightarrow> nat \<Rightarrow> bool" where
  "auth_failed_at E query k =
     (case run_query E k query of None \<Rightarrow> False | Some msg \<Rightarrow> is_auth_failure msg)"

text \<open>
  How often the current version of a secret was requested from the store. A run of
  \<open>connect\<close> right after the secret's records were invalidated requests it once.
\<close>

definition current_fetches :: "string \<Rightarrow> secrets_client \<Rightarrow> nat" where
  "current_fetches sid s = length (filter (\<lambda>rq. rq = (sid, ''AWSCURRENT'')) (requests s))"

text \<open>
  The states inside one iteration of the loop of \<open>execute_with_retry\<close>: after the line
  \<open>[QUERY]\<close> is printed (line 244), and after the handler of an authentication failure
  has printed its line and invalidated the cache (lines 249 and 250).
\<close>

definition after_query :: "string \<Rightarrow> db_connection \<Rightarrow> db_connection" where
  "after_query q d = db_print (QueryExecuting (take 50 q)) d"

definition after_invalidation :: "string \<Rightarrow> db_connection \<Rightarrow> db_connection" where
  "after_invalidation q d =
     (let d2 = db_print AuthFailed (after_query q d)
      in d2\<lparr>secrets := invalidate_cache (Some (secret_id d2)) (secrets d2)\<rparr>)"

text \<open>
  A run of the loop from index \<open>i\<close> that ends in \<open>r\<close> and \<open>d'\<close> made \<open>n\<close> attempts: the
  attempts are within the budget, every attempt but the last raised an authentication
  error, each attempt that raised one invalidated the cache once and, with budget left,
  was followed by one run of \<open>connect\<close>; the last attempt decides the result.
\<close>

definition loop_summary ::
  "env \<Rightarrow> string \<Rightarrow> int \<Rightarrow> nat \<Rightarrow> db_connection \<Rightarrow> exn + pyval \<Rightarrow> db_connection \<Rightarrow> nat \<Rightarrow> bool"
  where
  "loop_summary E q m i d r d' n \<longleftrightarrow>
     attempts (secrets d') = attempts (secrets d) + n \<and>
     int i + int n \<le> max (int i) (m + 1) \<and>
     invalidations (secrets d') =
       invalidations (secrets d) + length (filter (auth_failed_at E q) [i..<i + n]) \<and>
     current_fetches (secret_id d) (secrets d') =
       current_fetches (secret_id d) (secrets d) +
       length (filter (\<lambda>k. auth_failed_at E q k \<and> int k < m) [i..<i + n]) \<and>
     (\<forall>k. i \<le> k \<and> Suc k < i + n \<longrightarrow> auth_failed_at E q k) \<and>
     secret_id d' = secret_id d \<and>
     (if n = 0 then r = Inl (PyException ''Max retries exceeded'') \<and> m + 1 \<le> int i
      else case run_query E (i + n - 1) q of
             None \<Rightarrow> r = Inr (PDict [(''result'', PStr ''success'')])
           | Some msg \<Rightarrow>
               if is_auth_failure msg \<and> int (i + n - 1) < m then (\<exists>e. r = Inl e)
               else r = Inl (DownstreamError msg))"

section \<open>A store for the scenarios of the specification\<close>

text \<open>
  \<open>demo_loads\<close> agrees with \<open>json.loads\<close> on the texts the store below returns.
  Secret \<open>s1\<close> has a current version and no pending one, \<open>s2\<close> has both, \<open>s4\<close> is
  denied, \<open>s5\<close> holds text that is not JSON, the pending version of \<open>s6\<close> is denied,
  \<open>s7\<close> is being rotated, and the pending version of \<open>s8\<close> is the JSON text
  \<open>null\<close>. The database accepts the new credentials only, and the
  first attempt of a query fails on its password.
\<close>

definition demo_loads :: "string \<Rightarrow> pyval option" where
  "demo_loads txt =
     (if txt = ''{\"username\": \"app\"}'' then Some (PDict [(''username'', PStr ''app'')])
      else if txt = ''{\"username\": \"new\"}'' then Some (PDict [(''username'', PStr ''new'')])
      else if txt = ''{}'' then Some (PDict [])
      else if txt = ''null'' then Some PNone
      else None)"

definition secret_v1 :: response where
  "secret_v1 =
     \<lparr>SecretString = Some ''{\"username\": \"app\"}'', SecretBinary = None, VersionId = ''v1''\<rparr>"

definition secret_v2 :: response where
  "secret_v2 =
     \<lparr>SecretString = Some ''{\"username\": \"new\"}'', SecretBinary = None, VersionId = ''v2''\<rparr>"

definition demo_store :: "nat \<Rightarrow> string \<Rightarrow> string \<Rightarrow> exn + response" where
  "demo_store n sid stage =
     (if sid = ''s1'' then
        (if stage = ''AWSCURRENT'' then Inr secret_v1
         else Inl (ClientError ''ResourceNotFoundException'' ''no such version''))
      else if sid = ''s2'' then
        (if stage = ''AWSCURRENT'' then Inr secret_v1 else Inr secret_v2)
      else if sid = ''s4'' then Inl (ClientError ''AccessDeniedException'' ''not authorized'')
      else if sid = ''s5'' then
        Inr \<lparr>SecretString = Some ''not json'', SecretBinary = None, VersionId = ''v1''\<rparr>
      else if sid = ''s6'' then
        (if stage = ''AWSCURRENT'' then Inr secret_v1
         else Inl (ClientError ''AccessDeniedException'' ''not authorized''))
      else if sid = ''s7'' then
        Inl (ClientError ''InvalidRequestException'' ''Version is PENDING rotation'')
      else if sid = ''s8'' then
        (if stage = ''AWSCURRENT'' then Inr secret_v1
         else Inr \<lparr>SecretString = Some ''null'', SecretBinary = None, VersionId = ''v2''\<rparr>)
      else Inl (ClientError ''ResourceNotFoundException'' ''no such secret''))"

definition demo_env :: env where
  "demo_env =
     \<lparr>get_secret_value = demo_store,
      time_time = (\<lambda>n. 1000 + real n),
      json_loads = demo_loads,
      b64encode = (\<lambda>b. b),
      db_connect = (\<lambda>n c. c = PDict [(''username'', PStr ''new'')]),
      run_query = (\<lambda>n q. if n = 0 then Some ''FATAL: password authentication failed'' else None)\<rparr>"

text \<open>A client that fetched \<open>s3\<close> at time 1000, and the same client 299 readings later.\<close>

definition cached_s3 :: secrets_client where
  "cached_s3 =
     \<lparr>cache = [(''s3:AWSCURRENT'',
         \<lparr>entry_value = PDict [(''username'', PStr ''app'')], entry_version_id = ''v1'',
          entry_timestamp = 1000\<rparr>)],
      cache_ttl = 300, requests = [(''s3'', ''AWSCURRENT'')], ticks = 1, stdout = []\<rparr>"

text \<open>A client whose record for \<open>s1\<close> is exactly 300 seconds old at the next reading.\<close>

definition expired_s1 :: secrets_client where
  "expired_s1 =
     \<lparr>cache = [(''s1:AWSCURRENT'',
         \<lparr>entry_value = PDict [], entry_version_id = ''v0'', entry_timestamp = 1000\<rparr>)],
      cache_ttl = 300, requests = [(''s1'', ''AWSCURRENT'')], ticks = 300, stdout = []\<rparr>"

text \<open>A cache with the identifiers \<open>db\<close>, \<open>db2\<close> and \<open>app\<close>.\<close>

definition three_secrets :: secrets_client where
  "three_secrets =
     \<lparr>cache =
        [(''db:AWSCURRENT'', \<lparr>entry_value = PDict [], entry_version_id = ''a'', entry_timestamp = 1\<rparr>),
         (''app:AWSCURRENT'', \<lparr>entry_value = PDict [], entry_version_id = ''b'', entry_timestamp = 2\<rparr>),
         (''db2:AWSPENDING'', \<lparr>entry_value = PDict [], entry_version_id = ''c'', entry_timestamp = 3\<rparr>)],
      cache_ttl = 300, requests = [], ticks = 3, stdout = []\<rparr>"

section \<open>Properties of \<open>get_secret\<close>\<close>

lemma fetch_secret_requests:
  "fetch_secret E sid stage s = (r, s') \<Longrightarrow> requests s' = requests s @ [(sid, stage)]"
  by (auto simp: fetch_secret_def Let_def print_def split: sum.splits)

lemma fetch_secret_failure_cache:
  "fetch_secret E sid stage s = (Inl e, s') \<Longrightarrow> cache s' = cache s"
  by (auto simp: fetch_secret_def Let_def print_def split: sum.splits)

lemma fetch_secret_success:
  "fetch_secret E sid stage s = (Inr v, s') \<Longrightarrow>
   \<exists>resp. get_secret_value E (length (requests s)) sid stage = Inr resp \<and>
     parse_secret E resp = Inr v \<and>
     cache s' = AList.update (cache_key sid stage)
        \<lparr>entry_value = v, entry_version_id = VersionId resp,
         entry_timestamp = time_time E (ticks s)\<rparr> (cache s) \<and>
     ticks s' = Suc (ticks s)"
  by (auto simp: fetch_secret_def Let_def print_def split: sum.splits)

lemma fetch_secret_stored:
  "fetch_secret E sid stage s = (Inr v, s') \<Longrightarrow>
   \<exists>c. map_of (cache s') (cache_key sid stage) = Some c \<and> entry_value c = v \<and>
     entry_timestamp c = time_time E (ticks s) \<and> ticks s' = Suc (ticks s)"
  by (auto simp: update_conv dest!: fetch_secret_success)

lemma fetch_secret_remote_error:
  "get_secret_value E (length (requests s)) sid stage = Inl e \<Longrightarrow>
   fst (fetch_secret E sid stage s) = Inl (translate_error sid e)"
  by (simp add: fetch_secret_def Let_def)

lemma fetch_secret_not_json:
  "get_secret_value E (length (requests s)) sid stage = Inr resp \<Longrightarrow>
   SecretString resp = Some txt \<Longrightarrow> json_loads E txt = None \<Longrightarrow>
   fetch_secret E sid stage s =
     (Inl JSONDecodeError, s\<lparr>requests := requests s @ [(sid, stage)]\<rparr>)"
  by (simp add: fetch_secret_def parse_secret_def translate_error_def Let_def)

text \<open>Without a fresh record, or with \<open>use_cache\<close> off, the call is the fetch.\<close>

lemma get_secret_miss:
  "\<not> (use_cache \<and> cache_fresh E sid stage s) \<Longrightarrow>
   \<exists>s0. get_secret E sid stage use_cache s = fetch_secret E sid stage s0 \<and>
        cache s0 = cache s \<and> requests s0 = requests s \<and> cache_ttl s0 = cache_ttl s \<and>
        stdout s0 = stdout s \<and>
        (s0 = s \<or> s0 = s\<lparr>ticks := Suc (ticks s)\<rparr>)"
  by (auto simp: get_secret_def cache_fresh_def Let_def split: option.splits)

lemma get_secret_hit:
  "map_of (cache s) (cache_key sid stage) = Some c \<Longrightarrow>
   time_time E (ticks s) - entry_timestamp c < real_of_int (cache_ttl s) \<Longrightarrow>
   get_secret E sid stage True s =
     (Inr (entry_value c), print (CacheHit sid) (s\<lparr>ticks := Suc (ticks s)\<rparr>))"
  by (simp add: get_secret_def Let_def)

text \<open>Two calls in a row: the second one, within the time to live, repeats the value.\<close>

lemma get_secret_twice:
  assumes first: "get_secret E sid stage use_cache s = (Inr v, s1)"
    and fetched: "requests s1 \<noteq> requests s"
    and soon: "time_time E (ticks s1) - time_time E (ticks s1 - 1) < real_of_int (cache_ttl s)"
  shows "\<exists>s2. get_secret E sid stage True s1 = (Inr v, s2) \<and> requests s2 = requests s1 \<and>
              cache s2 = cache s1"
proof -
  have miss: "\<not> (use_cache \<and> cache_fresh E sid stage s)"
  proof
    assume h: "use_cache \<and> cache_fresh E sid stage s"
    then obtain c where "map_of (cache s) (cache_key sid stage) = Some c"
      and "time_time E (ticks s) - entry_timestamp c < real_of_int (cache_ttl s)"
      by (auto simp: cache_fresh_def split: option.splits)
    from get_secret_hit [OF this] h first fetched show False
      by (auto simp: print_def)
  qed
  from get_secret_miss [OF miss] first obtain s0
    where f: "fetch_secret E sid stage s0 = (Inr v, s1)" and ttl: "cache_ttl s0 = cache_ttl s"
    by auto
  from fetch_secret_stored [OF f] obtain c
    where look: "map_of (cache s1) (cache_key sid stage) = Some c"
      and val: "entry_value c = v"
      and stamp: "entry_timestamp c = time_time E (ticks s0)"
      and t: "ticks s1 = Suc (ticks s0)"
    by blast
  from f ttl have ttl1: "cache_ttl s1 = cache_ttl s"
    by (auto simp: fetch_secret_def Let_def print_def split: sum.splits)
  have lt: "time_time E (ticks s1) - entry_timestamp c < real_of_int (cache_ttl s1)"
    using soon t ttl1 stamp by simp
  from get_secret_hit [OF look lt] val show ?thesis
    by (simp add: print_def)
qed

text \<open>
  Claim C1. A call with \<open>use_cache\<close> on, made while the record cached for the key is
  younger than \<open>cache_ttl\<close> (its time stamp is the clock reading of the fetch that stored
  it), sends no request, returns the value of the cached record and leaves the cache as
  it is. A call made with no record for the key, or with a record whose age is
  \<open>cache_ttl\<close> or more, sends one request for the secret and stage; when it returns a
  value, the cache holds for the key a new record with that value, the version of the
  response and the clock reading taken after the fetch.
\<close>

theorem get_secret_cache_ttl:
  assumes "get_secret E sid stage True s = (r, s')"
  shows "(cache_fresh E sid stage s \<longrightarrow>
            (\<exists>c. map_of (cache s) (cache_key sid stage) = Some c \<and> r = Inr (entry_value c)) \<and>
            requests s' = requests s \<and> cache s' = cache s) \<and>
         (\<not> cache_fresh E sid stage s \<longrightarrow>
            requests s' = requests s @ [(sid, stage)] \<and>
            (\<forall>v. r = Inr v \<longrightarrow>
               (\<exists>resp. get_secret_value E (length (requests s)) sid stage = Inr resp \<and>
                  map_of (cache s') (cache_key sid stage) =
                    Some \<lparr>entry_value = v, entry_version_id = VersionId resp,
                          entry_timestamp = time_time E (ticks s' - 1)\<rparr>)))"
proof (intro conjI impI)
  assume fresh: "cache_fresh E sid stage s"
  then obtain c where c: "map_of (cache s) (cache_key sid stage) = Some c"
    and lt: "time_time E (ticks s) - entry_timestamp c < real_of_int (cache_ttl s)"
    by (auto simp: cache_fresh_def split: option.splits)
  from get_secret_hit [OF c lt] assms
  have r: "r = Inr (entry_value c)"
    and s': "s' = print (CacheHit sid) (s\<lparr>ticks := Suc (ticks s)\<rparr>)"
    by simp_all
  from c r show "\<exists>c. map_of (cache s) (cache_key sid stage) = Some c \<and> r = Inr (entry_value c)"
    by blast
  from s' show "requests s' = requests s" by (simp add: print_def)
  from s' show "cache s' = cache s" by (simp add: print_def)
next
  assume stale: "\<not> cache_fresh E sid stage s"
  then obtain s0 where f: "fetch_secret E sid stage s0 = (r, s')"
    and s0: "cache s0 = cache s" "requests s0 = requests s"
    using get_secret_miss [of True E sid stage s] assms by auto
  from fetch_secret_requests [OF f] s0
  show "requests s' = requests s @ [(sid, stage)]" by simp
  show "\<forall>v. r = Inr v \<longrightarrow>
          (\<exists>resp. get_secret_value E (length (requests s)) sid stage = Inr resp \<and>
             map_of (cache s') (cache_key sid stage) =
               Some \<lparr>entry_value = v, entry_version_id = VersionId resp,
                     entry_timestamp = time_time E (ticks s' - 1)\<rparr>)"
  proof (intro allI impI)
    fix v assume "r = Inr v"
    with f have "fetch_secret E sid stage s0 = (Inr v, s')" by simp
    from fetch_secret_success [OF this] s0
    show "\<exists>resp. get_secret_value E (length (requests s)) sid stage = Inr resp \<and>
             map_of (cache s') (cache_key sid stage) =
               Some \<lparr>entry_value = v, entry_version_id = VersionId resp,
                     entry_timestamp = time_time E (ticks s' - 1)\<rparr>"
      by (auto simp: update_conv)
  qed
qed

lemma demo_hit:
  "get_secret demo_env ''s3'' ''AWSCURRENT'' True cached_s3 =
     (Inr (PDict [(''username'', PStr ''app'')]),
      cached_s3\<lparr>ticks := 2, stdout := [CacheHit ''s3'']\<rparr>)"
  by (simp add: get_secret_def cached_s3_def demo_env_def cache_key_def print_def Let_def)

lemma demo_expired:
  "get_secret demo_env ''s1'' ''AWSCURRENT'' True expired_s1 =
     (Inr (PDict [(''username'', PStr ''app'')]),
      \<lparr>cache = [(''s1:AWSCURRENT'',
         \<lparr>entry_value = PDict [(''username'', PStr ''app'')], entry_version_id = ''v1'',
          entry_timestamp = 1301\<rparr>)],
      cache_ttl = 300, requests = [(''s1'', ''AWSCURRENT''), (''s1'', ''AWSCURRENT'')],
      ticks = 302, stdout = [Fetched ''s1'' ''v1'']\<rparr>)"
  by (simp add: get_secret_def fetch_secret_def parse_secret_def expired_s1_def demo_env_def
      demo_store_def demo_loads_def secret_v1_def cache_key_def print_def Let_def)

theorem get_secret_cache_ttl_witness:
  "cache_fresh demo_env ''s3'' ''AWSCURRENT'' cached_s3 \<and>
   fst (get_secret demo_env ''s3'' ''AWSCURRENT'' True cached_s3) =
     Inr (PDict [(''username'', PStr ''app'')]) \<and>
   requests (snd (get_secret demo_env ''s3'' ''AWSCURRENT'' True cached_s3)) =
     [(''s3'', ''AWSCURRENT'')] \<and>
   cache (snd (get_secret demo_env ''s3'' ''AWSCURRENT'' True cached_s3)) = cache cached_s3 \<and>
   \<not> cache_fresh demo_env ''s1'' ''AWSCURRENT'' expired_s1 \<and>
   requests (snd (get_secret demo_env ''s1'' ''AWSCURRENT'' True expired_s1)) =
     [(''s1'', ''AWSCURRENT''), (''s1'', ''AWSCURRENT'')] \<and>
   map_of (cache (snd (get_secret demo_env ''s1'' ''AWSCURRENT'' True expired_s1)))
       ''s1:AWSCURRENT'' =
     Some \<lparr>entry_value = PDict [(''username'', PStr ''app'')], entry_version_id = ''v1'',
           entry_timestamp = 1301\<rparr>"
proof -
  have fresh: "cache_fresh demo_env ''s3'' ''AWSCURRENT'' cached_s3"
    by (simp add: cache_fresh_def cached_s3_def cache_key_def demo_env_def)
  have stale: "\<not> cache_fresh demo_env ''s1'' ''AWSCURRENT'' expired_s1"
    by (simp add: cache_fresh_def expired_s1_def cache_key_def demo_env_def)
  from get_secret_cache_ttl [OF demo_hit] fresh
  have hit: "requests (cached_s3\<lparr>ticks := 2, stdout := [CacheHit ''s3'']\<rparr>) = requests cached_s3 \<and>
             cache (cached_s3\<lparr>ticks := 2, stdout := [CacheHit ''s3'']\<rparr>) = cache cached_s3"
    by blast
  have hit_value: "fst (get_secret demo_env ''s3'' ''AWSCURRENT'' True cached_s3) =
      Inr (PDict [(''username'', PStr ''app'')])"
    unfolding demo_hit by simp
  have hit_requests:
    "requests (snd (get_secret demo_env ''s3'' ''AWSCURRENT'' True cached_s3)) =
       [(''s3'', ''AWSCURRENT'')]"
    unfolding demo_hit using hit by (simp add: cached_s3_def)
  have hit_cache:
    "cache (snd (get_secret demo_env ''s3'' ''AWSCURRENT'' True cached_s3)) = cache cached_s3"
    unfolding demo_hit using hit by simp
  from get_secret_cache_ttl [OF demo_expired] stale
  have "requests (snd (get_secret demo_env ''s1'' ''AWSCURRENT'' True expired_s1)) =
          requests expired_s1 @ [(''s1'', ''AWSCURRENT'')]"
    unfolding demo_expired by simp
  then have miss_requests:
    "requests (snd (get_secret demo_env ''s1'' ''AWSCURRENT'' True expired_s1)) =
       [(''s1'', ''AWSCURRENT''), (''s1'', ''AWSCURRENT'')]"
    by (simp add: expired_s1_def)
  have miss_cache:
    "map_of (cache (snd (get_secret demo_env ''s1'' ''AWSCURRENT'' True expired_s1)))
       ''s1:AWSCURRENT'' =
     Some \<lparr>entry_value = PDict [(''username'', PStr ''app'')], entry_version_id = ''v1'',
           entry_timestamp = 1301\<rparr>"
    unfolding demo_expired by simp
  from fresh hit_value hit_requests hit_cache stale miss_requests miss_cache
  show ?thesis by blast
qed

text \<open>
  Claim C4. When the request of \<open>get_secret\<close> fails with a \<open>ClientError\<close>, the call
  raises: \<open>SecretNotFoundError\<close> for the code \<open>ResourceNotFoundException\<close>;
  \<open>SecretRotationInProgressError\<close> for \<open>InvalidRequestException\<close> when the message, in
  lower case, contains \<open>pending\<close>, and the original error otherwise;
  \<open>SecretAccessDeniedError\<close> for \<open>AccessDeniedException\<close>; \<open>SecretDecryptionError\<close> for
  \<open>DecryptionFailure\<close>; and the original error for every other code. It never returns
  a value.
\<close>

theorem get_secret_error_mapping:
  assumes remote: "get_secret_value E (length (requests s)) sid stage = Inl (ClientError code msg)"
    and miss: "\<not> (use_cache \<and> cache_fresh E sid stage s)"
  shows "\<exists>e. fst (get_secret E sid stage use_cache s) = Inl e \<and>
     (code = ''ResourceNotFoundException'' \<longrightarrow>
        e = SecretNotFoundError (''Secret not found: '' @ sid)) \<and>
     (code = ''InvalidRequestException'' \<and> str_contains ''pending'' (lower msg) \<longrightarrow>
        e = SecretRotationInProgressError (''Secret rotation in progress for '' @ sid)) \<and>
     (code = ''InvalidRequestException'' \<and> \<not> str_contains ''pending'' (lower msg) \<longrightarrow>
        e = ClientError code msg) \<and>
     (code = ''AccessDeniedException'' \<longrightarrow>
        e = SecretAccessDeniedError (''Access denied to '' @ sid)) \<and>
     (code = ''DecryptionFailure'' \<longrightarrow>
        e = SecretDecryptionError (''Cannot decrypt '' @ sid @ '' - check KMS permissions'')) \<and>
     (code \<notin> {''ResourceNotFoundException'', ''InvalidRequestException'',
               ''AccessDeniedException'', ''DecryptionFailure''} \<longrightarrow>
        e = ClientError code msg)"
proof -
  from get_secret_miss [OF miss] obtain s0
    where g: "get_secret E sid stage use_cache s = fetch_secret E sid stage s0"
      and "requests s0 = requests s"
    by blast
  with remote have "get_secret_value E (length (requests s0)) sid stage = Inl (ClientError code msg)"
    by simp
  from fetch_secret_remote_error [OF this] g
  have "fst (get_secret E sid stage use_cache s) = Inl (translate_error sid (ClientError code msg))"
    by simp
  then show ?thesis
    by (simp add: translate_error_def)
qed

lemma pending_message: "str_contains ''pending'' (lower ''Version is PENDING rotation'')"
  by code_simp

theorem get_secret_error_mapping_witness:
  "get_secret_value demo_env (length (requests (init_client 300))) ''s7'' ''AWSPENDING'' =
     Inl (ClientError ''InvalidRequestException'' ''Version is PENDING rotation'') \<and>
   \<not> cache_fresh demo_env ''s7'' ''AWSPENDING'' (init_client 300) \<and>
   fst (get_secret demo_env ''s7'' ''AWSPENDING'' True (init_client 300)) =
     Inl (SecretRotationInProgressError ''Secret rotation in progress for s7'')"
proof -
  have remote:
    "get_secret_value demo_env (length (requests (init_client 300))) ''s7'' ''AWSPENDING'' =
       Inl (ClientError ''InvalidRequestException'' ''Version is PENDING rotation'')"
    by (simp add: demo_env_def demo_store_def)
  have stale: "\<not> cache_fresh demo_env ''s7'' ''AWSPENDING'' (init_client 300)"
    by (simp add: cache_fresh_def init_client_def)
  then have miss: "\<not> (True \<and> cache_fresh demo_env ''s7'' ''AWSPENDING'' (init_client 300))"
    by simp
  from get_secret_error_mapping [OF remote miss] pending_message remote stale
  show ?thesis by auto
qed

text \<open>
  Claim C7. Whenever \<open>get_secret\<close> raises, whatever the exception, the cache is the one
  the call started with: the same keys with the same records, in the same order.
\<close>

theorem get_secret_failure_keeps_cache:
  "get_secret E sid stage use_cache s = (Inl e, s') \<Longrightarrow> cache s' = cache s"
  by (auto simp: get_secret_def Let_def print_def split: option.splits if_splits
      dest!: fetch_secret_failure_cache)

lemma demo_denied:
  "get_secret demo_env ''s4'' ''AWSCURRENT'' True cached_s3 =
     (Inl (SecretAccessDeniedError ''Access denied to s4''),
      cached_s3\<lparr>requests := [(''s3'', ''AWSCURRENT''), (''s4'', ''AWSCURRENT'')]\<rparr>)"
  by (simp add: get_secret_def fetch_secret_def translate_error_def cached_s3_def demo_env_def
      demo_store_def cache_key_def Let_def)

theorem get_secret_failure_keeps_cache_witness:
  "get_secret demo_env ''s4'' ''AWSCURRENT'' True cached_s3 =
     (Inl (SecretAccessDeniedError ''Access denied to s4''),
      cached_s3\<lparr>requests := [(''s3'', ''AWSCURRENT''), (''s4'', ''AWSCURRENT'')]\<rparr>) \<and>
   cache (cached_s3\<lparr>requests := [(''s3'', ''AWSCURRENT''), (''s4'', ''AWSCURRENT'')]\<rparr>) =
     cache cached_s3"
  using get_secret_failure_keeps_cache [OF demo_denied] demo_denied by simp

text \<open>
  Claim C10. When the request succeeds and the text of the secret is not JSON, a call
  that goes to the store raises the parser's own exception, which is none of the
  exception classes of the file and not a \<open>ClientError\<close>, and the cache, in particular
  the record of the key, is the one the call started with.
\<close>

theorem get_secret_not_json:
  assumes remote: "get_secret_value E (length (requests s)) sid stage = Inr resp"
    and payload: "SecretString resp = Some txt"
    and bad: "json_loads E txt = None"
    and miss: "\<not> (use_cache \<and> cache_fresh E sid stage s)"
  shows "fst (get_secret E sid stage use_cache s) = Inl JSONDecodeError \<and>
         \<not> typed_failure JSONDecodeError \<and> \<not> probe_tolerated JSONDecodeError \<and>
         cache (snd (get_secret E sid stage use_cache s)) = cache s \<and>
         map_of (cache (snd (get_secret E sid stage use_cache s))) (cache_key sid stage) =
           map_of (cache s) (cache_key sid stage)"
proof -
  from get_secret_miss [OF miss] obtain s0
    where g: "get_secret E sid stage use_cache s = fetch_secret E sid stage s0"
      and s0: "requests s0 = requests s" "cache s0 = cache s"
    by blast
  from remote s0 have "get_secret_value E (length (requests s0)) sid stage = Inr resp"
    by simp
  from fetch_secret_not_json [OF this payload bad] g s0 show ?thesis
    by simp
qed

theorem get_secret_not_json_witness:
  "get_secret_value demo_env (length (requests cached_s3)) ''s5'' ''AWSCURRENT'' =
     Inr \<lparr>SecretString = Some ''not json'', SecretBinary = None, VersionId = ''v1''\<rparr> \<and>
   json_loads demo_env ''not json'' = None \<and>
   \<not> cache_fresh demo_env ''s5'' ''AWSCURRENT'' cached_s3 \<and>
   fst (get_secret demo_env ''s5'' ''AWSCURRENT'' True cached_s3) = Inl JSONDecodeError \<and>
   cache (snd (get_secret demo_env ''s5'' ''AWSCURRENT'' True cached_s3)) = cache cached_s3"
proof -
  have remote:
    "get_secret_value demo_env (length (requests cached_s3)) ''s5'' ''AWSCURRENT'' =
       Inr \<lparr>SecretString = Some ''not json'', SecretBinary = None, VersionId = ''v1''\<rparr>"
    by (simp add: demo_env_def demo_store_def)
  have payload: "SecretString \<lparr>SecretString = Some ''not json'', SecretBinary = None,
      VersionId = ''v1''\<rparr> = Some ''not json''"
    by simp
  have bad: "json_loads demo_env ''not json'' = None"
    by (simp add: demo_env_def demo_loads_def)
  have stale: "\<not> cache_fresh demo_env ''s5'' ''AWSCURRENT'' cached_s3"
    by (simp add: cache_fresh_def cached_s3_def cache_key_def)
  then have miss: "\<not> (True \<and> cache_fresh demo_env ''s5'' ''AWSCURRENT'' cached_s3)"
    by simp
  from get_secret_not_json [OF remote payload bad miss] remote bad stale show ?thesis
    by simp
qed

section \<open>Properties of \<open>get_both_versions\<close>\<close>

lemma get_both_versions_current_fails:
  "get_secret E sid ''AWSCURRENT'' True s = (Inl e, s1) \<Longrightarrow>
   get_both_versions E sid s = (Inl e, s1)"
  by (simp add: get_both_versions_def)

lemma get_both_versions_pending_found:
  "get_secret E sid ''AWSCURRENT'' True s = (Inr c, s1) \<Longrightarrow>
   get_secret E sid ''AWSPENDING'' True s1 = (Inr p, s2) \<Longrightarrow>
   get_both_versions E sid s =
     (Inr \<lparr>current = c, pending = p, is_rotating = True\<rparr>,
      print (RotationAvailable sid) s2)"
  by (simp add: get_both_versions_def)

lemma get_both_versions_pending_tolerated:
  "get_secret E sid ''AWSCURRENT'' True s = (Inr c, s1) \<Longrightarrow>
   get_secret E sid ''AWSPENDING'' True s1 = (Inl e, s2) \<Longrightarrow> probe_tolerated e \<Longrightarrow>
   get_both_versions E sid s =
     (Inr \<lparr>current = c, pending = PNone, is_rotating = False\<rparr>, s2)"
  by (cases e) (simp_all add: get_both_versions_def)

lemma get_both_versions_pending_raises:
  "get_secret E sid ''AWSCURRENT'' True s = (Inr c, s1) \<Longrightarrow>
   get_secret E sid ''AWSPENDING'' True s1 = (Inl e, s2) \<Longrightarrow> \<not> probe_tolerated e \<Longrightarrow>
   get_both_versions E sid s = (Inl e, s2)"
  by (cases e) (simp_all add: get_both_versions_def)

text \<open>The state that \<open>get_both_versions\<close> leaves is one of three.\<close>

lemma get_both_versions_states:
  "\<exists>s1 s2. s1 = snd (get_secret E sid ''AWSCURRENT'' True s) \<and>
     s2 = snd (get_secret E sid ''AWSPENDING'' True s1) \<and>
     (snd (get_both_versions E sid s) = s1 \<or> snd (get_both_versions E sid s) = s2 \<or>
      snd (get_both_versions E sid s) = print (RotationAvailable sid) s2)"
proof -
  obtain rc s1 where cur: "get_secret E sid ''AWSCURRENT'' True s = (rc, s1)"
    by (cases "get_secret E sid ''AWSCURRENT'' True s")
  obtain rp s2 where pen: "get_secret E sid ''AWSPENDING'' True s1 = (rp, s2)"
    by (cases "get_secret E sid ''AWSPENDING'' True s1")
  show ?thesis
  proof (cases rc)
    case (Inl e)
    with cur get_both_versions_current_fails [of E sid s e s1] show ?thesis by simp
  next
    case c: (Inr c)
    show ?thesis
    proof (cases rp)
      case (Inr p)
      with c cur pen get_both_versions_pending_found [of E sid s c s1 p s2] show ?thesis
        by simp
    next
      case (Inl e)
      with c cur pen get_both_versions_pending_tolerated [of E sid s c s1 e s2]
        get_both_versions_pending_raises [of E sid s c s1 e s2]
      show ?thesis by (cases "probe_tolerated e") simp_all
    qed
  qed
qed

lemma pair_of_fst: "fst p = a \<Longrightarrow> p = (a, snd p)"
  by (cases p) simp

lemma demo_s1_current:
  "fst (get_secret demo_env ''s1'' ''AWSCURRENT'' True (init_client 300)) =
     Inr (PDict [(''username'', PStr ''app'')])"
  by (simp add: get_secret_def fetch_secret_def parse_secret_def init_client_def demo_env_def
      demo_store_def demo_loads_def secret_v1_def cache_key_def print_def Let_def)

lemma demo_s1_pending:
  "fst (get_secret demo_env ''s1'' ''AWSPENDING'' True
         (snd (get_secret demo_env ''s1'' ''AWSCURRENT'' True (init_client 300)))) =
     Inl (SecretNotFoundError ''Secret not found: s1'')"
  by (simp add: get_secret_def fetch_secret_def parse_secret_def translate_error_def
      init_client_def demo_env_def demo_store_def demo_loads_def secret_v1_def cache_key_def
      print_def Let_def)

lemma demo_s2_current:
  "fst (get_secret demo_env ''s2'' ''AWSCURRENT'' True (init_client 300)) =
     Inr (PDict [(''username'', PStr ''app'')])"
  by (simp add: get_secret_def fetch_secret_def parse_secret_def init_client_def demo_env_def
      demo_store_def demo_loads_def secret_v1_def cache_key_def print_def Let_def)

lemma demo_s2_pending:
  "fst (get_secret demo_env ''s2'' ''AWSPENDING'' True
         (snd (get_secret demo_env ''s2'' ''AWSCURRENT'' True (init_client 300)))) =
     Inr (PDict [(''username'', PStr ''new'')])"
  by (simp add: get_secret_def fetch_secret_def parse_secret_def translate_error_def
      init_client_def demo_env_def demo_store_def demo_loads_def secret_v1_def secret_v2_def
      cache_key_def print_def Let_def)

lemma demo_s4_current:
  "fst (get_secret demo_env ''s4'' ''AWSCURRENT'' True (init_client 300)) =
     Inl (SecretAccessDeniedError ''Access denied to s4'')"
  by (simp add: get_secret_def fetch_secret_def translate_error_def init_client_def
      demo_env_def demo_store_def cache_key_def Let_def)

lemma demo_s6_current:
  "fst (get_secret demo_env ''s6'' ''AWSCURRENT'' True (init_client 300)) =
     Inr (PDict [(''username'', PStr ''app'')])"
  by (simp add: get_secret_def fetch_secret_def parse_secret_def init_client_def demo_env_def
      demo_store_def demo_loads_def secret_v1_def cache_key_def print_def Let_def)

lemma demo_s6_pending:
  "fst (get_secret demo_env ''s6'' ''AWSPENDING'' True
         (snd (get_secret demo_env ''s6'' ''AWSCURRENT'' True (init_client 300)))) =
     Inl (SecretAccessDeniedError ''Access denied to s6'')"
  by (simp add: get_secret_def fetch_secret_def parse_secret_def translate_error_def
      init_client_def demo_env_def demo_store_def demo_loads_def secret_v1_def cache_key_def
      print_def Let_def)

lemma demo_s8_current:
  "fst (get_secret demo_env ''s8'' ''AWSCURRENT'' True (init_client 300)) =
     Inr (PDict [(''username'', PStr ''app'')])"
  by (simp add: get_secret_def fetch_secret_def parse_secret_def init_client_def demo_env_def
      demo_store_def demo_loads_def secret_v1_def cache_key_def print_def Let_def)

lemma demo_s8_pending:
  "fst (get_secret demo_env ''s8'' ''AWSPENDING'' True
         (snd (get_secret demo_env ''s8'' ''AWSCURRENT'' True (init_client 300)))) =
     Inr PNone"
  by (simp add: get_secret_def fetch_secret_def parse_secret_def translate_error_def
      init_client_def demo_env_def demo_store_def demo_loads_def secret_v1_def cache_key_def
      print_def Let_def)

text \<open>
  Claim C2, as the code has it. Let the fetch of the current version return a value and
  the probe of the pending version, made next, end in \<open>rp\<close>. A snapshot that
  \<open>get_both_versions\<close> returns has \<open>is_rotating\<close> true exactly when the probe returned a
  value; then \<open>pending\<close> is that value, and otherwise \<open>pending\<close> is \<open>None\<close>. So a
  populated \<open>pending\<close> means \<open>is_rotating\<close>, and \<open>is_rotating\<close> means that \<open>pending\<close> is
  populated or that the pending payload itself is \<open>None\<close> (the JSON text \<open>null\<close>). A probe
  that returns a value gives a snapshot with \<open>is_rotating\<close> true, and a probe that raises
  \<open>SecretNotFoundError\<close> gives a snapshot with \<open>is_rotating\<close> false and \<open>pending\<close> equal
  to \<open>None\<close>.
\<close>

theorem get_both_versions_is_rotating:
  assumes cur: "get_secret E sid ''AWSCURRENT'' True s = (Inr c, s1)"
    and pen: "get_secret E sid ''AWSPENDING'' True s1 = (rp, s2)"
  shows "(\<forall>vs s'. get_both_versions E sid s = (Inr vs, s') \<longrightarrow>
            (is_rotating vs \<longleftrightarrow> (\<exists>p. rp = Inr p)) \<and>
            (is_rotating vs \<longrightarrow> rp = Inr (pending vs)) \<and>
            (\<not> is_rotating vs \<longrightarrow> pending vs = PNone) \<and>
            (is_rotating vs \<longleftrightarrow> pending vs \<noteq> PNone \<or> rp = Inr PNone)) \<and>
         (\<forall>p. rp = Inr p \<longrightarrow>
            fst (get_both_versions E sid s) =
              Inr \<lparr>current = c, pending = p, is_rotating = True\<rparr>) \<and>
         (\<forall>m. rp = Inl (SecretNotFoundError m) \<longrightarrow>
            get_both_versions E sid s =
              (Inr \<lparr>current = c, pending = PNone, is_rotating = False\<rparr>, s2))"
proof (cases rp)
  case (Inr p)
  with pen have "get_secret E sid ''AWSPENDING'' True s1 = (Inr p, s2)" by simp
  from get_both_versions_pending_found [OF cur this] Inr show ?thesis
    by auto
next
  case (Inl e)
  with pen have probe: "get_secret E sid ''AWSPENDING'' True s1 = (Inl e, s2)" by simp
  show ?thesis
  proof (cases "probe_tolerated e")
    case True
    from get_both_versions_pending_tolerated [OF cur probe True] Inl show ?thesis
      by auto
  next
    case False
    from get_both_versions_pending_raises [OF cur probe False] Inl False show ?thesis
      by auto
  qed
qed

theorem get_both_versions_is_rotating_witness:
  "fst (get_secret demo_env ''s2'' ''AWSCURRENT'' True (init_client 300)) =
     Inr (PDict [(''username'', PStr ''app'')]) \<and>
   fst (get_secret demo_env ''s2'' ''AWSPENDING'' True
         (snd (get_secret demo_env ''s2'' ''AWSCURRENT'' True (init_client 300)))) =
     Inr (PDict [(''username'', PStr ''new'')]) \<and>
   fst (get_both_versions demo_env ''s2'' (init_client 300)) =
     Inr \<lparr>current = PDict [(''username'', PStr ''app'')],
          pending = PDict [(''username'', PStr ''new'')], is_rotating = True\<rparr> \<and>
   fst (get_secret demo_env ''s1'' ''AWSCURRENT'' True (init_client 300)) =
     Inr (PDict [(''username'', PStr ''app'')]) \<and>
   fst (get_secret demo_env ''s1'' ''AWSPENDING'' True
         (snd (get_secret demo_env ''s1'' ''AWSCURRENT'' True (init_client 300)))) =
     Inl (SecretNotFoundError ''Secret not found: s1'') \<and>
   fst (get_both_versions demo_env ''s1'' (init_client 300)) =
     Inr \<lparr>current = PDict [(''username'', PStr ''app'')], pending = PNone,
          is_rotating = False\<rparr>"
proof -
  note rot = get_both_versions_is_rotating
    [OF pair_of_fst [OF demo_s2_current] pair_of_fst [OF demo_s2_pending]]
  note norot = get_both_versions_is_rotating
    [OF pair_of_fst [OF demo_s1_current] pair_of_fst [OF demo_s1_pending]]
  from rot have a: "fst (get_both_versions demo_env ''s2'' (init_client 300)) =
     Inr \<lparr>current = PDict [(''username'', PStr ''app'')],
          pending = PDict [(''username'', PStr ''new'')], is_rotating = True\<rparr>"
    by blast
  from norot have b: "fst (get_both_versions demo_env ''s1'' (init_client 300)) =
     Inr \<lparr>current = PDict [(''username'', PStr ''app'')], pending = PNone,
          is_rotating = False\<rparr>"
    by simp
  from a b demo_s2_current demo_s2_pending demo_s1_current demo_s1_pending
  show ?thesis by blast
qed

text \<open>
  The claim as the specification states it fails: the pending version of \<open>s8\<close> is
  fetched, its text is \<open>null\<close>, and the snapshot has \<open>is_rotating\<close> true with \<open>pending\<close>
  equal to \<open>None\<close>.
\<close>

theorem get_both_versions_null_pending:
  "fst (get_secret demo_env ''s8'' ''AWSPENDING'' True
         (snd (get_secret demo_env ''s8'' ''AWSCURRENT'' True (init_client 300)))) =
     Inr PNone \<and>
   fst (get_both_versions demo_env ''s8'' (init_client 300)) =
     Inr \<lparr>current = PDict [(''username'', PStr ''app'')], pending = PNone,
          is_rotating = True\<rparr>"
  by (simp add: get_both_versions_def get_secret_def fetch_secret_def parse_secret_def
      translate_error_def init_client_def demo_env_def demo_store_def demo_loads_def
      secret_v1_def cache_key_def print_def Let_def)

text \<open>
  Claim C5, as the code has it. \<open>get_both_versions\<close> raises exactly when the fetch of
  the current version raises, or the probe of the pending version raises an exception
  that is neither a \<open>ClientError\<close> nor a \<open>SecretNotFoundError\<close>. The exception of the
  current fetch leaves the method unchanged, and so does such an exception of the
  probe. A probe that raises a \<open>ClientError\<close> or a \<open>SecretNotFoundError\<close> gives the
  snapshot with \<open>pending\<close> equal to \<open>None\<close> and \<open>is_rotating\<close> false.
\<close>

theorem get_both_versions_raises:
  assumes cur: "get_secret E sid ''AWSCURRENT'' True s = (rc, s1)"
    and pen: "get_secret E sid ''AWSPENDING'' True s1 = (rp, s2)"
  shows "((\<exists>e. fst (get_both_versions E sid s) = Inl e) \<longleftrightarrow>
            (\<exists>e. rc = Inl e) \<or> (\<exists>e. rp = Inl e \<and> \<not> probe_tolerated e)) \<and>
         (\<forall>e. rc = Inl e \<longrightarrow> get_both_versions E sid s = (Inl e, s1)) \<and>
         (\<forall>c e. rc = Inr c \<and> rp = Inl e \<and> \<not> probe_tolerated e \<longrightarrow>
            get_both_versions E sid s = (Inl e, s2)) \<and>
         (\<forall>c e. rc = Inr c \<and> rp = Inl e \<and> probe_tolerated e \<longrightarrow>
            get_both_versions E sid s =
              (Inr \<lparr>current = c, pending = PNone, is_rotating = False\<rparr>, s2))"
proof (cases rc)
  case (Inl e)
  with cur have "get_secret E sid ''AWSCURRENT'' True s = (Inl e, s1)" by simp
  from get_both_versions_current_fails [OF this] Inl show ?thesis
    by simp
next
  case (Inr c)
  with cur have cur': "get_secret E sid ''AWSCURRENT'' True s = (Inr c, s1)" by simp
  show ?thesis
  proof (cases rp)
    case p: (Inr p)
    with pen have "get_secret E sid ''AWSPENDING'' True s1 = (Inr p, s2)" by simp
    from get_both_versions_pending_found [OF cur' this] Inr p show ?thesis
      by simp
  next
    case e: (Inl e)
    with pen have probe: "get_secret E sid ''AWSPENDING'' True s1 = (Inl e, s2)" by simp
    show ?thesis
    proof (cases "probe_tolerated e")
      case True
      from get_both_versions_pending_tolerated [OF cur' probe True] Inr e True show ?thesis
        by simp
    next
      case False
      from get_both_versions_pending_raises [OF cur' probe False] Inr e False show ?thesis
        by simp
    qed
  qed
qed

theorem get_both_versions_raises_witness:
  "fst (get_secret demo_env ''s6'' ''AWSCURRENT'' True (init_client 300)) =
     Inr (PDict [(''username'', PStr ''app'')]) \<and>
   fst (get_secret demo_env ''s6'' ''AWSPENDING'' True
         (snd (get_secret demo_env ''s6'' ''AWSCURRENT'' True (init_client 300)))) =
     Inl (SecretAccessDeniedError ''Access denied to s6'') \<and>
   \<not> probe_tolerated (SecretAccessDeniedError ''Access denied to s6'') \<and>
   fst (get_both_versions demo_env ''s6'' (init_client 300)) =
     Inl (SecretAccessDeniedError ''Access denied to s6'') \<and>
   fst (get_secret demo_env ''s1'' ''AWSPENDING'' True
         (snd (get_secret demo_env ''s1'' ''AWSCURRENT'' True (init_client 300)))) =
     Inl (SecretNotFoundError ''Secret not found: s1'') \<and>
   probe_tolerated (SecretNotFoundError ''Secret not found: s1'') \<and>
   fst (get_both_versions demo_env ''s1'' (init_client 300)) =
     Inr \<lparr>current = PDict [(''username'', PStr ''app'')], pending = PNone,
          is_rotating = False\<rparr> \<and>
   fst (get_secret demo_env ''s4'' ''AWSCURRENT'' True (init_client 300)) =
     Inl (SecretAccessDeniedError ''Access denied to s4'') \<and>
   fst (get_both_versions demo_env ''s4'' (init_client 300)) =
     Inl (SecretAccessDeniedError ''Access denied to s4'')"
proof -
  note denied = get_both_versions_raises
    [OF pair_of_fst [OF demo_s6_current] pair_of_fst [OF demo_s6_pending]]
  note absent = get_both_versions_raises
    [OF pair_of_fst [OF demo_s1_current] pair_of_fst [OF demo_s1_pending]]
  note hard = get_both_versions_raises
    [OF pair_of_fst [OF demo_s4_current] pair_of_fst [OF refl]]
  from denied have a: "fst (get_both_versions demo_env ''s6'' (init_client 300)) =
      Inl (SecretAccessDeniedError ''Access denied to s6'')"
    by simp
  from absent have b: "fst (get_both_versions demo_env ''s1'' (init_client 300)) =
     Inr \<lparr>current = PDict [(''username'', PStr ''app'')], pending = PNone,
          is_rotating = False\<rparr>"
    by simp
  from hard have c: "fst (get_both_versions demo_env ''s4'' (init_client 300)) =
      Inl (SecretAccessDeniedError ''Access denied to s4'')"
    by simp
  from a b c demo_s6_current demo_s6_pending demo_s1_pending demo_s4_current
  show ?thesis by simp
qed

text \<open>
  The claim as the specification states it fails: the current version of \<open>s6\<close> is
  fetched, the probe of its pending version is denied, and the method raises.
\<close>

theorem get_both_versions_probe_aborts:
  "fst (get_secret demo_env ''s6'' ''AWSCURRENT'' True (init_client 300)) =
     Inr (PDict [(''username'', PStr ''app'')]) \<and>
   fst (get_both_versions demo_env ''s6'' (init_client 300)) =
     Inl (SecretAccessDeniedError ''Access denied to s6'')"
  by (simp add: get_both_versions_def get_secret_def fetch_secret_def parse_secret_def
      translate_error_def init_client_def demo_env_def demo_store_def demo_loads_def
      secret_v1_def cache_key_def print_def Let_def)

section \<open>Properties of \<open>invalidate_cache\<close>\<close>

lemma startswith_iff: "startswith s p \<longleftrightarrow> (\<exists>t. s = p @ t)"
  by (induction s p rule: startswith.induct) auto

lemma startswith_cache_key: "startswith sid p \<Longrightarrow> startswith (cache_key sid stage) p"
  by (auto simp: startswith_iff cache_key_def)

lemma fold_delete_filter:
  "fold AList.delete ks al = filter (\<lambda>kv. fst kv \<notin> set ks) al"
proof (induction ks arbitrary: al)
  case Nil
  show ?case by simp
next
  case (Cons k ks)
  have "AList.delete k al = filter (\<lambda>kv. fst kv \<noteq> k) al"
    by (induction al) (auto simp: AList.delete_eq)
  with Cons show ?case
    by (auto intro: filter_cong)
qed

lemma map_of_filter_keys:
  "map_of (filter (\<lambda>kv. Q (fst kv)) al) k = (if Q k then map_of al k else None)"
  by (induction al) auto

lemma invalidate_cache_filter:
  "cache (invalidate_cache (Some p) s) = filter (\<lambda>kv. \<not> startswith (fst kv) p) (cache s)"
proof (cases "p = []")
  case True
  then show ?thesis
    by (simp add: invalidate_cache_def print_def)
next
  case False
  have "filter (\<lambda>kv. fst kv \<notin> set (filter (\<lambda>k. startswith k p) (map fst (cache s)))) (cache s) =
        filter (\<lambda>kv. \<not> startswith (fst kv) p) (cache s)"
    by (rule filter_cong) auto
  with False show ?thesis
    by (simp add: invalidate_cache_def print_def Let_def fold_delete_filter)
qed

lemma startswith_append:
  "length p \<le> length a \<Longrightarrow> startswith (a @ b) p = startswith a p"
  by (induction a p rule: startswith.induct) auto

text \<open>
  Claim C9, as the code has it. \<open>invalidate_cache\<close> with a prefix removes exactly the
  records whose key (the identifier, a colon and the stage) starts with the prefix, and
  keeps every other record as it is, in the same order. For a prefix that is not longer
  than an identifier these are exactly the records of the identifiers that start with
  the prefix, the records of \<open>db2\<close> by the prefix \<open>db\<close> among them; a longer prefix is
  matched against the colon and the stage as well. Every record of an identifier that
  starts with the prefix is removed. Without an identifier the cache is emptied.
\<close>

theorem invalidate_cache_prefix:
  "cache (invalidate_cache (Some p) s) = filter (\<lambda>kv. \<not> startswith (fst kv) p) (cache s) \<and>
   (\<forall>k. map_of (cache (invalidate_cache (Some p) s)) k =
      (if startswith k p then None else map_of (cache s) k)) \<and>
   (\<forall>sid stage. length p \<le> length sid \<longrightarrow>
      map_of (cache (invalidate_cache (Some p) s)) (cache_key sid stage) =
        (if startswith sid p then None else map_of (cache s) (cache_key sid stage))) \<and>
   (\<forall>sid stage. startswith sid p \<longrightarrow>
      map_of (cache (invalidate_cache (Some p) s)) (cache_key sid stage) = None) \<and>
   cache (invalidate_cache None s) = []"
proof -
  have look: "map_of (cache (invalidate_cache (Some p) s)) k =
      (if startswith k p then None else map_of (cache s) k)" for k
    unfolding invalidate_cache_filter
    by (simp add: map_of_filter_keys [where Q = "\<lambda>k. \<not> startswith k p"])
  have ident: "map_of (cache (invalidate_cache (Some p) s)) (cache_key sid stage) =
      (if startswith sid p then None else map_of (cache s) (cache_key sid stage))"
    if "length p \<le> length sid" for sid stage
  proof -
    from that have "startswith (cache_key sid stage) p = startswith sid p"
      unfolding cache_key_def by (rule startswith_append)
    with look [of "cache_key sid stage"] show ?thesis by simp
  qed
  have "cache (invalidate_cache None s) = []"
    by (simp add: invalidate_cache_def print_def)
  with look ident invalidate_cache_filter show ?thesis
    by (simp add: startswith_cache_key)
qed

theorem invalidate_cache_prefix_witness:
  "startswith ''db2'' ''db'' \<and> length ''db'' \<le> length ''db2'' \<and>
   map_of (cache (invalidate_cache (Some ''db'') three_secrets)) (cache_key ''db2'' ''AWSPENDING'') =
     None \<and>
   cache (invalidate_cache (Some ''db'') three_secrets) =
     [(''app:AWSCURRENT'',
       \<lparr>entry_value = PDict [], entry_version_id = ''b'', entry_timestamp = 2\<rparr>)] \<and>
   cache (invalidate_cache None three_secrets) = []"
proof -
  have pre: "startswith ''db2'' ''db''" "length ''db'' \<le> length ''db2''" by simp_all
  from invalidate_cache_prefix [of "''db''" three_secrets] pre
  have gone: "map_of (cache (invalidate_cache (Some ''db'') three_secrets))
      (cache_key ''db2'' ''AWSPENDING'') = None"
    by blast
  from invalidate_cache_prefix [of "''db''" three_secrets]
  have "cache (invalidate_cache (Some ''db'') three_secrets) =
      filter (\<lambda>kv. \<not> startswith (fst kv) ''db'') (cache three_secrets)"
    by blast
  then have left: "cache (invalidate_cache (Some ''db'') three_secrets) =
     [(''app:AWSCURRENT'',
       \<lparr>entry_value = PDict [], entry_version_id = ''b'', entry_timestamp = 2\<rparr>)]"
    by (simp add: three_secrets_def)
  from invalidate_cache_prefix [of "''db''" three_secrets]
  have "cache (invalidate_cache None three_secrets) = []"
    by blast
  with pre gone left show ?thesis by blast
qed

text \<open>
  The claim as the specification states it fails: the identifier \<open>db\<close> does not start
  with the prefix \<open>db:\<close>, and its record is removed all the same.
\<close>

theorem invalidate_cache_beyond_identifier:
  "\<not> startswith ''db'' ''db:'' \<and>
   map_of (cache three_secrets) (cache_key ''db'' ''AWSCURRENT'') =
     Some \<lparr>entry_value = PDict [], entry_version_id = ''a'', entry_timestamp = 1\<rparr> \<and>
   map_of (cache (invalidate_cache (Some ''db:'') three_secrets)) (cache_key ''db'' ''AWSCURRENT'') =
     None \<and>
   cache (invalidate_cache (Some ''db:'') three_secrets) =
     [(''app:AWSCURRENT'',
       \<lparr>entry_value = PDict [], entry_version_id = ''b'', entry_timestamp = 2\<rparr>),
      (''db2:AWSPENDING'',
       \<lparr>entry_value = PDict [], entry_version_id = ''c'', entry_timestamp = 3\<rparr>)]"
  by (simp add: invalidate_cache_def three_secrets_def cache_key_def print_def Let_def)

section \<open>Properties of \<open>connect\<close>\<close>














section \<open>Properties of \<open>execute_with_retry\<close>\<close>

text \<open>What the operations under the loop print and request.\<close>

lemma get_secret_counts:
  "attempts (snd (get_secret E sid st uc s)) = attempts s \<and>
   invalidations (snd (get_secret E sid st uc s)) = invalidations s"
  by (auto simp: get_secret_def fetch_secret_def attempts_def invalidations_def print_def
      Let_def split: option.splits sum.splits)

lemma get_secret_requests:
  "requests (snd (get_secret E sid st uc s)) = requests s \<or>
   requests (snd (get_secret E sid st uc s)) = requests s @ [(sid, st)]"
  by (auto simp: get_secret_def fetch_secret_def print_def Let_def
      split: option.splits sum.splits)

lemma get_secret_absent_requests:
  "map_of (cache s) (cache_key sid st) = None \<Longrightarrow>
   requests (snd (get_secret E sid st True s)) = requests s @ [(sid, st)]"
  by (auto simp: get_secret_def fetch_secret_def print_def Let_def split: sum.splits)

lemma get_both_versions_counts:
  "attempts (snd (get_both_versions E sid s)) = attempts s \<and>
   invalidations (snd (get_both_versions E sid s)) = invalidations s"
proof -
  have pr: "attempts (print (RotationAvailable sid) x) = attempts x"
    "invalidations (print (RotationAvailable sid) x) = invalidations x" for x
    by (simp_all add: attempts_def invalidations_def print_def)
  from get_both_versions_states [of E sid s] show ?thesis
    by (auto simp: get_secret_counts pr)
qed

lemma get_both_versions_fetches:
  assumes "map_of (cache s) (cache_key sid ''AWSCURRENT'') = None"
  shows "current_fetches sid (snd (get_both_versions E sid s)) = Suc (current_fetches sid s)"
proof -
  let ?s1 = "snd (get_secret E sid ''AWSCURRENT'' True s)"
  let ?s2 = "snd (get_secret E sid ''AWSPENDING'' True ?s1)"
  from get_secret_absent_requests [OF assms]
  have one: "current_fetches sid ?s1 = Suc (current_fetches sid s)"
    by (simp add: current_fetches_def)
  from get_secret_requests [of E sid "''AWSPENDING''" True ?s1]
  have two: "current_fetches sid ?s2 = current_fetches sid ?s1"
    by (auto simp: current_fetches_def)
  from get_both_versions_states [of E sid s] one two show ?thesis
    by (auto simp: current_fetches_def print_def)
qed

lemma try_connect_keeps:
  "secret_id (snd (try_connect E c v d)) = secret_id d \<and>
   requests (secrets (snd (try_connect E c v d))) = requests (secrets d) \<and>
   attempts (secrets (snd (try_connect E c v d))) = attempts (secrets d) \<and>
   invalidations (secrets (snd (try_connect E c v d))) = invalidations (secrets d)"
  by (simp add: try_connect_def db_print_def print_def attempts_def invalidations_def Let_def)

lemma connect_keeps:
  "secret_id (snd (connect E d)) = secret_id d \<and>
   attempts (secrets (snd (connect E d))) = attempts (secrets d) \<and>
   invalidations (secrets (snd (connect E d))) = invalidations (secrets d) \<and>
   requests (secrets (snd (connect E d))) =
     requests (snd (get_both_versions E (secret_id d) (secrets d)))"
proof -
  obtain rv s1 where snap: "get_both_versions E (secret_id d) (secrets d) = (rv, s1)"
    by (cases "get_both_versions E (secret_id d) (secrets d)")
  from get_both_versions_counts [of E "secret_id d" "secrets d"] snap
  have cnt: "attempts s1 = attempts (secrets d)" "invalidations s1 = invalidations (secrets d)"
    by simp_all
  show ?thesis
  proof (cases rv)
    case (Inl e)
    with snap cnt show ?thesis by (simp add: connect_def)
  next
    case (Inr vs)
    let ?d0 = "d\<lparr>secrets := s1\<rparr>"
    obtain b1 d1 where t1: "try_connect E (current vs) ''CURRENT'' ?d0 = (b1, d1)"
      by (cases "try_connect E (current vs) ''CURRENT'' ?d0")
    from try_connect_keeps [of E "current vs" "''CURRENT''" ?d0] t1 cnt
    have k1: "secret_id d1 = secret_id d" "requests (secrets d1) = requests s1"
      "attempts (secrets d1) = attempts (secrets d)"
      "invalidations (secrets d1) = invalidations (secrets d)"
      by simp_all
    let ?d2 = "db_print Fallback d1"
    obtain b2 d3 where t2: "try_connect E (pending vs) ''PENDING'' ?d2 = (b2, d3)"
      by (cases "try_connect E (pending vs) ''PENDING'' ?d2")
    from try_connect_keeps [of E "pending vs" "''PENDING''" ?d2] t2 k1
    have k2: "secret_id d3 = secret_id d" "requests (secrets d3) = requests s1"
      "attempts (secrets d3) = attempts (secrets d)"
      "invalidations (secrets d3) = invalidations (secrets d)"
      by (simp_all add: db_print_def print_def attempts_def invalidations_def)
    from snap Inr t1 t2 k1 k2 show ?thesis
      by (cases b1; cases b2)
        (simp_all add: connect_def db_print_def print_def attempts_def invalidations_def)
  qed
qed

lemma connect_fetches:
  assumes "map_of (cache (secrets d)) (cache_key (secret_id d) ''AWSCURRENT'') = None"
  shows "current_fetches (secret_id d) (secrets (snd (connect E d))) =
         Suc (current_fetches (secret_id d) (secrets d))"
  using get_both_versions_fetches [OF assms, of E] connect_keeps [of E d]
  by (simp add: current_fetches_def)

lemma invalidate_cache_counts:
  "attempts (invalidate_cache p s) = attempts s \<and>
   invalidations (invalidate_cache p s) = Suc (invalidations s) \<and>
   requests (invalidate_cache p s) = requests s"
  by (simp add: invalidate_cache_def print_def attempts_def invalidations_def Let_def
      split: option.splits)

lemma startswith_refl: "startswith s s"
  by (simp add: startswith_iff)

lemma invalidate_cache_absent:
  "map_of (cache (invalidate_cache (Some sid) s)) (cache_key sid st) = None"
  unfolding invalidate_cache_filter
  by (simp add: map_of_filter_keys [where Q = "\<lambda>k. \<not> startswith k sid"] startswith_cache_key startswith_refl)

text \<open>The state in which the handler of an authentication failure calls \<open>connect\<close>.\<close>

lemma after_query_state:
  "attempts (secrets (after_query q d)) = Suc (attempts (secrets d))"
  "invalidations (secrets (after_query q d)) = invalidations (secrets d)"
  "current_fetches sid (secrets (after_query q d)) = current_fetches sid (secrets d)"
  "secret_id (after_query q d) = secret_id d"
  "cache (secrets (after_query q d)) = cache (secrets d)"
  by (simp_all add: after_query_def db_print_def print_def attempts_def invalidations_def
      current_fetches_def)

lemma after_invalidation_state:
  "attempts (secrets (after_invalidation q d)) = Suc (attempts (secrets d))"
  "invalidations (secrets (after_invalidation q d)) = Suc (invalidations (secrets d))"
  "current_fetches sid (secrets (after_invalidation q d)) = current_fetches sid (secrets d)"
  "secret_id (after_invalidation q d) = secret_id d"
  "map_of (cache (secrets (after_invalidation q d))) (cache_key (secret_id d) stage) = None"
proof -
  let ?d2 = "db_print AuthFailed (after_query q d)"
  have d2: "attempts (secrets ?d2) = Suc (attempts (secrets d))"
    "invalidations (secrets ?d2) = invalidations (secrets d)"
    "requests (secrets ?d2) = requests (secrets d)"
    "secret_id ?d2 = secret_id d"
    by (simp_all add: after_query_def db_print_def print_def attempts_def invalidations_def)
  note inv = invalidate_cache_counts [of "Some (secret_id ?d2)" "secrets ?d2"]
  from inv d2 show "attempts (secrets (after_invalidation q d)) = Suc (attempts (secrets d))"
    by (simp add: after_invalidation_def Let_def)
  from inv d2
  show "invalidations (secrets (after_invalidation q d)) = Suc (invalidations (secrets d))"
    by (simp add: after_invalidation_def Let_def)
  from inv d2
  show "current_fetches sid (secrets (after_invalidation q d)) = current_fetches sid (secrets d)"
    by (simp add: after_invalidation_def Let_def current_fetches_def)
  from d2 show "secret_id (after_invalidation q d) = secret_id d"
    by (simp add: after_invalidation_def Let_def)
  from d2
  show "map_of (cache (secrets (after_invalidation q d))) (cache_key (secret_id d) stage) = None"
    by (simp add: after_invalidation_def Let_def invalidate_cache_absent)
qed

text \<open>One iteration of the loop, case by case.\<close>

lemma retry_loop_done:
  "\<not> a < m + 1 \<Longrightarrow> retry_loop E q m a d = (Inl (PyException ''Max retries exceeded''), d)"
  by (subst retry_loop.simps) simp

lemma retry_loop_success:
  "a < m + 1 \<Longrightarrow> run_query E (nat a) q = None \<Longrightarrow>
   retry_loop E q m a d = (Inr (PDict [(''result'', PStr ''success'')]), after_query q d)"
  by (subst retry_loop.simps) (simp add: after_query_def)

lemma retry_loop_other_failure:
  "a < m + 1 \<Longrightarrow> run_query E (nat a) q = Some msg \<Longrightarrow> \<not> is_auth_failure msg \<Longrightarrow>
   retry_loop E q m a d = (Inl (DownstreamError msg), after_query q d)"
  by (subst retry_loop.simps) (simp add: after_query_def)

lemma retry_loop_last_failure:
  "a < m + 1 \<Longrightarrow> run_query E (nat a) q = Some msg \<Longrightarrow> is_auth_failure msg \<Longrightarrow>
   \<not> a < m \<Longrightarrow>
   retry_loop E q m a d = (Inl (DownstreamError msg), after_invalidation q d)"
  by (subst retry_loop.simps) (simp add: after_query_def after_invalidation_def Let_def)

lemma retry_loop_retry:
  "a < m + 1 \<Longrightarrow> run_query E (nat a) q = Some msg \<Longrightarrow> is_auth_failure msg \<Longrightarrow> a < m \<Longrightarrow>
   retry_loop E q m a d =
     (case connect E (after_invalidation q d) of
        (Inl e, d4) \<Rightarrow> (Inl e, d4)
      | (Inr b, d4) \<Rightarrow> retry_loop E q m (a + 1) d4)"
  by (subst retry_loop.simps) (simp add: after_query_def after_invalidation_def Let_def)

text \<open>The summary of a run of the loop, by induction on the budget that is left.\<close>

lemma loop_summaryI:
  assumes "attempts (secrets d') = attempts (secrets d) + n"
    and "int i + int n \<le> max (int i) (m + 1)"
    and "invalidations (secrets d') =
       invalidations (secrets d) + length (filter (auth_failed_at E q) [i..<i + n])"
    and "current_fetches (secret_id d) (secrets d') =
       current_fetches (secret_id d) (secrets d) +
       length (filter (\<lambda>k. auth_failed_at E q k \<and> int k < m) [i..<i + n])"
    and "\<And>k. i \<le> k \<Longrightarrow> Suc k < i + n \<Longrightarrow> auth_failed_at E q k"
    and "secret_id d' = secret_id d"
    and "n = 0 \<Longrightarrow> r = Inl (PyException ''Max retries exceeded'') \<and> m + 1 \<le> int i"
    and "n \<noteq> 0 \<Longrightarrow>
      (case run_query E (i + n - 1) q of
             None \<Rightarrow> r = Inr (PDict [(''result'', PStr ''success'')])
           | Some msg \<Rightarrow>
               if is_auth_failure msg \<and> int (i + n - 1) < m then (\<exists>e. r = Inl e)
               else r = Inl (DownstreamError msg))"
  shows "loop_summary E q m i d r d' n"
  unfolding loop_summary_def using assms by (cases "n = 0") auto

lemma loop_summaryD:
  assumes "loop_summary E q m i d r d' n"
  shows "attempts (secrets d') = attempts (secrets d) + n"
    and "int i + int n \<le> max (int i) (m + 1)"
    and "invalidations (secrets d') =
       invalidations (secrets d) + length (filter (auth_failed_at E q) [i..<i + n])"
    and "current_fetches (secret_id d) (secrets d') =
       current_fetches (secret_id d) (secrets d) +
       length (filter (\<lambda>k. auth_failed_at E q k \<and> int k < m) [i..<i + n])"
    and "\<And>k. i \<le> k \<Longrightarrow> Suc k < i + n \<Longrightarrow> auth_failed_at E q k"
    and "secret_id d' = secret_id d"
    and "n = 0 \<Longrightarrow> r = Inl (PyException ''Max retries exceeded'') \<and> m + 1 \<le> int i"
    and "n \<noteq> 0 \<Longrightarrow>
      (case run_query E (i + n - 1) q of
             None \<Rightarrow> r = Inr (PDict [(''result'', PStr ''success'')])
           | Some msg \<Rightarrow>
               if is_auth_failure msg \<and> int (i + n - 1) < m then (\<exists>e. r = Inl e)
               else r = Inl (DownstreamError msg))"
  using assms unfolding loop_summary_def by (cases "n = 0"; simp)+

lemma loop_summary_single:
  assumes lt: "int i < m + 1"
    and att: "attempts (secrets d') = Suc (attempts (secrets d))"
    and inv: "invalidations (secrets d') =
        invalidations (secrets d) + (if auth_failed_at E q i then 1 else 0)"
    and fet: "current_fetches (secret_id d) (secrets d') =
        current_fetches (secret_id d) (secrets d) +
        (if auth_failed_at E q i \<and> int i < m then 1 else 0)"
    and sid: "secret_id d' = secret_id d"
    and res: "case run_query E i q of
             None \<Rightarrow> r = Inr (PDict [(''result'', PStr ''success'')])
           | Some msg \<Rightarrow>
               if is_auth_failure msg \<and> int i < m then (\<exists>e. r = Inl e)
               else r = Inl (DownstreamError msg)"
  shows "loop_summary E q m i d r d' 1"
proof (rule loop_summaryI)
  show "attempts (secrets d') = attempts (secrets d) + 1" using att by simp
  show "int i + int 1 \<le> max (int i) (m + 1)" using lt by simp
  show "invalidations (secrets d') =
       invalidations (secrets d) + length (filter (auth_failed_at E q) [i..<i + 1])"
    using inv by simp
  show "current_fetches (secret_id d) (secrets d') =
       current_fetches (secret_id d) (secrets d) +
       length (filter (\<lambda>k. auth_failed_at E q k \<and> int k < m) [i..<i + 1])"
    using fet by simp
  show "auth_failed_at E q k" if "i \<le> k" "Suc k < i + 1" for k
    using that by simp
  show "secret_id d' = secret_id d" by (rule sid)
  show "r = Inl (PyException ''Max retries exceeded'') \<and> m + 1 \<le> int i" if "(1::nat) = 0"
    using that by simp
  have e: "i + 1 - 1 = i" by simp
  show "case run_query E (i + 1 - 1) q of
             None \<Rightarrow> r = Inr (PDict [(''result'', PStr ''success'')])
           | Some msg \<Rightarrow>
               if is_auth_failure msg \<and> int (i + 1 - 1) < m then (\<exists>e. r = Inl e)
               else r = Inl (DownstreamError msg)"
    unfolding e by (rule res)
qed

lemma loop_summary_step:
  assumes lt: "int i < m"
    and auth: "auth_failed_at E q i"
    and rest: "loop_summary E q m (Suc i) d4 r d' n"
    and att: "attempts (secrets d4) = Suc (attempts (secrets d))"
    and inv: "invalidations (secrets d4) = Suc (invalidations (secrets d))"
    and fet: "current_fetches (secret_id d) (secrets d4) =
        Suc (current_fetches (secret_id d) (secrets d))"
    and sid: "secret_id d4 = secret_id d"
  shows "loop_summary E q m i d r d' (Suc n)"
proof (rule loop_summaryI)
  note parts = loop_summaryD [OF rest]
  have upt: "[i..<i + Suc n] = i # [Suc i..<Suc i + n]"
    by (simp add: upt_conv_Cons)
  have n0: "n \<noteq> 0"
    using parts(7) lt by auto
  show "attempts (secrets d') = attempts (secrets d) + Suc n"
    using parts(1) att by simp
  show "int i + int (Suc n) \<le> max (int i) (m + 1)"
    using parts(2) lt by simp
  show "invalidations (secrets d') =
       invalidations (secrets d) + length (filter (auth_failed_at E q) [i..<i + Suc n])"
    unfolding upt using parts(3) inv auth by simp
  show "current_fetches (secret_id d) (secrets d') =
       current_fetches (secret_id d) (secrets d) +
       length (filter (\<lambda>k. auth_failed_at E q k \<and> int k < m) [i..<i + Suc n])"
    unfolding upt using parts(4) fet sid auth lt by simp
  show "auth_failed_at E q k" if "i \<le> k" "Suc k < i + Suc n" for k
  proof (cases "k = i")
    case True
    with auth show ?thesis by simp
  next
    case False
    with that have "Suc i \<le> k" "Suc k < Suc i + n" by simp_all
    then show ?thesis by (rule parts(5))
  qed
  show "secret_id d' = secret_id d" using parts(6) sid by simp
  show "r = Inl (PyException ''Max retries exceeded'') \<and> m + 1 \<le> int i" if "Suc n = 0"
    using that by simp
  have e: "i + Suc n - 1 = Suc i + n - 1" by simp
  show "case run_query E (i + Suc n - 1) q of
             None \<Rightarrow> r = Inr (PDict [(''result'', PStr ''success'')])
           | Some msg \<Rightarrow>
               if is_auth_failure msg \<and> int (i + Suc n - 1) < m then (\<exists>e. r = Inl e)
               else r = Inl (DownstreamError msg)"
    unfolding e by (rule parts(8) [OF n0])
qed

lemma retry_loop_summary:
  "0 \<le> a \<Longrightarrow> retry_loop E q m a d = (r, d') \<Longrightarrow> \<exists>n. loop_summary E q m (nat a) d r d' n"
proof (induction "nat (m + 1 - a)" arbitrary: a d r d')
  case 0
  then have "\<not> a < m + 1" by simp
  with retry_loop_done [of a m E q d] "0.prems"
  have "r = Inl (PyException ''Max retries exceeded'')" "d' = d" "m + 1 \<le> int (nat a)"
    by simp_all
  then have "loop_summary E q m (nat a) d r d' 0"
    by (intro loop_summaryI) simp_all
  then show ?case ..
next
  case (Suc k)
  then have lt: "a < m + 1" and k: "k = nat (m + 1 - (a + 1))" and a0: "0 \<le> a"
    by simp_all
  from a0 have idx: "int (nat a) = a" and suc: "nat (a + 1) = Suc (nat a)"
    by simp_all
  from lt idx have lt': "int (nat a) < m + 1"
    by simp
  note run = Suc.prems(2)
  show ?case
  proof (cases "run_query E (nat a) q")
    case None
    from retry_loop_success [OF lt None, of d] run
    have "r = Inr (PDict [(''result'', PStr ''success'')])" "d' = after_query q d"
      by simp_all
    with None have "loop_summary E q m (nat a) d r d' 1"
      by (intro loop_summary_single [OF lt'])
        (use a0 in \<open>simp_all add: after_query_state auth_failed_at_def\<close>)
    then show ?thesis ..
  next
    case (Some msg)
    show ?thesis
    proof (cases "is_auth_failure msg")
      case False
      from retry_loop_other_failure [OF lt Some False, of d] run
      have "r = Inl (DownstreamError msg)" "d' = after_query q d"
        by simp_all
      with Some False have "loop_summary E q m (nat a) d r d' 1"
        by (intro loop_summary_single [OF lt'])
          (use a0 in \<open>simp_all add: after_query_state auth_failed_at_def\<close>)
      then show ?thesis ..
    next
      case True
      show ?thesis
      proof (cases "a < m")
        case False
        from retry_loop_last_failure [OF lt Some True False, of d] run
        have "r = Inl (DownstreamError msg)" "d' = after_invalidation q d"
          by simp_all
        with Some True False have "loop_summary E q m (nat a) d r d' 1"
          by (intro loop_summary_single [OF lt'])
            (use a0 in \<open>simp_all add: after_invalidation_state auth_failed_at_def\<close>)
        then show ?thesis ..
      next
        case budget: True
        obtain rc d4 where con: "connect E (after_invalidation q d) = (rc, d4)"
          by (cases "connect E (after_invalidation q d)")
        have absent: "map_of (cache (secrets (after_invalidation q d)))
            (cache_key (secret_id (after_invalidation q d)) ''AWSCURRENT'') = None"
          by (simp add: after_invalidation_state)
        from connect_keeps [of E "after_invalidation q d"] connect_fetches [OF absent, of E] con
        have d4: "attempts (secrets d4) = Suc (attempts (secrets d))"
          "invalidations (secrets d4) = Suc (invalidations (secrets d))"
          "current_fetches (secret_id d) (secrets d4) =
             Suc (current_fetches (secret_id d) (secrets d))"
          "secret_id d4 = secret_id d"
          by (simp_all add: after_invalidation_state)
        show ?thesis
        proof (cases rc)
          case (Inl e)
          with retry_loop_retry [OF lt Some True budget, of d] run con
          have "r = Inl e" "d' = d4"
            by simp_all
          with Some True budget d4 have "loop_summary E q m (nat a) d r d' 1"
            by (intro loop_summary_single [OF lt']) (use a0 in \<open>simp_all add: auth_failed_at_def\<close>)
          then show ?thesis ..
        next
          case (Inr b)
          with retry_loop_retry [OF lt Some True budget, of d] run con
          have "retry_loop E q m (a + 1) d4 = (r, d')"
            by simp
          from Suc.hyps(1) [OF k _ this] a0 obtain n
            where "loop_summary E q m (nat (a + 1)) d4 r d' n"
            by auto
          then have rest: "loop_summary E q m (Suc (nat a)) d4 r d' n"
            by (simp only: suc)
          have auth: "auth_failed_at E q (nat a)"
            using Some True by (simp add: auth_failed_at_def)
          from budget idx have "int (nat a) < m"
            by simp
          from loop_summary_step [OF this auth rest d4]
          have "loop_summary E q m (nat a) d r d' (Suc n)" .
          then show ?thesis ..
        qed
      qed
    qed
  qed
qed

lemma execute_with_retry_summary:
  "execute_with_retry E q m d = (r, d') \<Longrightarrow> \<exists>n. loop_summary E q m 0 d r d' n"
  using retry_loop_summary [of 0 E q m d r d'] by (simp add: execute_with_retry_def)

lemma demo_auth_message: "is_auth_failure ''FATAL: password authentication failed''"
  unfolding is_auth_failure_def by code_simp

lemma demo_first_attempt:
  "run_query demo_env (nat 0) ''SELECT 1'' = Some ''FATAL: password authentication failed''"
  by (simp add: demo_env_def)

lemma demo_second_attempt: "run_query demo_env (nat 1) ''SELECT 1'' = None"
  by (simp add: demo_env_def)

lemma demo_auth_failed_at:
  "auth_failed_at demo_env ''SELECT 1'' 0" "\<not> auth_failed_at demo_env ''SELECT 1'' 1"
  "\<not> auth_failed_at demo_env ''SELECT 1'' (Suc 0)"
  using demo_auth_message by (simp_all add: auth_failed_at_def demo_env_def)

text \<open>
  Claim C6, as the code has it. With a budget \<open>max_retries\<close> that is not negative,
  \<open>execute_with_retry\<close> makes at least one and at most \<open>max_retries + 1\<close> attempts. When
  it has made all \<open>max_retries + 1\<close> of them, the last attempt decides: its success is
  returned, and its failure is raised as it is, not wrapped in another exception.
\<close>

theorem execute_with_retry_budget:
  assumes budget: "0 \<le> max_retries"
    and run: "execute_with_retry E q max_retries d = (r, d')"
  shows "\<exists>n. attempts (secrets d') = attempts (secrets d) + n \<and> 0 < n \<and>
           int n \<le> max_retries + 1 \<and>
           (int n = max_retries + 1 \<longrightarrow>
              (case run_query E (nat max_retries) q of
                 None \<Rightarrow> r = Inr (PDict [(''result'', PStr ''success'')])
               | Some msg \<Rightarrow> r = Inl (DownstreamError msg)))"
proof -
  from execute_with_retry_summary [OF run] obtain n
    where sum: "loop_summary E q max_retries 0 d r d' n"
    by blast
  note parts = loop_summaryD [OF sum]
  from parts(7) budget have n0: "n \<noteq> 0"
    by auto
  from parts(2) budget have le: "int n \<le> max_retries + 1"
    by simp
  have last: "case run_query E (nat max_retries) q of
                 None \<Rightarrow> r = Inr (PDict [(''result'', PStr ''success'')])
               | Some msg \<Rightarrow> r = Inl (DownstreamError msg)"
    if all: "int n = max_retries + 1"
  proof -
    from all n0 have idx: "0 + n - 1 = nat max_retries"
      by simp
    from all have "\<not> int (nat max_retries) < max_retries"
      using budget by simp
    with parts(8) [OF n0, unfolded idx] show ?thesis
      by (simp split: option.splits)
  qed
  from parts(1) n0 le last show ?thesis
    by blast
qed

lemma demo_exhausted:
  "execute_with_retry demo_env ''SELECT 1'' 0 (init_db ''s2'') =
     (Inl (DownstreamError ''FATAL: password authentication failed''),
      after_invalidation ''SELECT 1'' (init_db ''s2''))"
  unfolding execute_with_retry_def
  by (rule retry_loop_last_failure [OF _ demo_first_attempt demo_auth_message]) simp_all

theorem execute_with_retry_budget_witness:
  "(0::int) \<le> 0 \<and>
   run_query demo_env (nat 0) ''SELECT 1'' = Some ''FATAL: password authentication failed'' \<and>
   attempts (secrets (after_invalidation ''SELECT 1'' (init_db ''s2''))) =
     attempts (secrets (init_db ''s2'')) + 1 \<and>
   fst (execute_with_retry demo_env ''SELECT 1'' 0 (init_db ''s2'')) =
     Inl (DownstreamError ''FATAL: password authentication failed'')"
proof -
  have budget: "(0::int) \<le> 0" by simp
  from execute_with_retry_budget [OF budget demo_exhausted] obtain n
    where n: "attempts (secrets (after_invalidation ''SELECT 1'' (init_db ''s2''))) =
        attempts (secrets (init_db ''s2'')) + n"
      and pos: "0 < n" and le: "int n \<le> 0 + 1"
    by blast
  from pos le have "n = 1" by simp
  with n demo_first_attempt demo_exhausted show ?thesis
    by simp
qed

text \<open>
  The claim as the specification states it fails: with a budget of no retry and an
  attempt that fails on its password, the budget is used up and the exception raised is
  the failure of the attempt itself, not an exception that says the retries are
  exhausted.
\<close>

theorem execute_with_retry_raises_last_failure:
  "fst (execute_with_retry demo_env ''SELECT 1'' 0 (init_db ''s2'')) =
     Inl (DownstreamError ''FATAL: password authentication failed'') \<and>
   fst (execute_with_retry demo_env ''SELECT 1'' 0 (init_db ''s2'')) \<noteq>
     Inl (PyException ''Max retries exceeded'') \<and>
   attempts (secrets (snd (execute_with_retry demo_env ''SELECT 1'' 0 (init_db ''s2'')))) = 1"
proof -
  have "execute_with_retry demo_env ''SELECT 1'' 0 (init_db ''s2'') =
      (Inl (DownstreamError ''FATAL: password authentication failed''),
       after_invalidation ''SELECT 1'' (init_db ''s2''))"
    unfolding execute_with_retry_def
    by (rule retry_loop_last_failure [OF _ demo_first_attempt demo_auth_message]) simp_all
  then show ?thesis
    by (simp add: after_invalidation_state) (simp add: init_db_def init_client_def attempts_def)
qed

text \<open>
  Claim C8. A run of \<open>execute_with_retry\<close> that makes \<open>n\<close> attempts: every attempt but
  the last raised an error of the authentication class, so a further attempt is made
  only after such an error; the cache was invalidated once for each attempt that raised
  one and not otherwise; \<open>connect\<close> was run once for each of them that had budget left;
  and an attempt that raises another error ends the run with that error. In one
  iteration of the loop, a failure that is not of the authentication class is raised at
  once, with nothing done but the line printed; a failure of the authentication class
  with budget left invalidates the records of the secret, runs \<open>connect\<close>, and goes on
  with the next attempt when \<open>connect\<close> returns; without budget left it invalidates and
  raises the failure.
\<close>

theorem execute_with_retry_auth_only:
  assumes run: "execute_with_retry E q max_retries d = (r, d')"
  shows "(\<exists>n. attempts (secrets d') = attempts (secrets d) + n \<and>
            (\<forall>k. Suc k < n \<longrightarrow> auth_failed_at E q k) \<and>
            invalidations (secrets d') =
              invalidations (secrets d) + length (filter (auth_failed_at E q) [0..<n]) \<and>
            current_fetches (secret_id d) (secrets d') =
              current_fetches (secret_id d) (secrets d) +
              length (filter (\<lambda>k. auth_failed_at E q k \<and> int k < max_retries) [0..<n]) \<and>
            (\<forall>msg. 0 < n \<and> run_query E (n - 1) q = Some msg \<and> \<not> is_auth_failure msg \<longrightarrow>
               r = Inl (DownstreamError msg))) \<and>
         (\<forall>a d0 msg. a < max_retries + 1 \<and> run_query E (nat a) q = Some msg \<longrightarrow>
            (\<not> is_auth_failure msg \<longrightarrow>
               retry_loop E q max_retries a d0 = (Inl (DownstreamError msg), after_query q d0) \<and>
               cache (secrets (after_query q d0)) = cache (secrets d0) \<and>
               invalidations (secrets (after_query q d0)) = invalidations (secrets d0)) \<and>
            (is_auth_failure msg \<and> a < max_retries \<longrightarrow>
               retry_loop E q max_retries a d0 =
                 (case connect E (after_invalidation q d0) of
                    (Inl e, d4) \<Rightarrow> (Inl e, d4)
                  | (Inr b, d4) \<Rightarrow> retry_loop E q max_retries (a + 1) d4)) \<and>
            (is_auth_failure msg \<and> \<not> a < max_retries \<longrightarrow>
               retry_loop E q max_retries a d0 =
                 (Inl (DownstreamError msg), after_invalidation q d0)) \<and>
            (\<forall>stage. map_of (cache (secrets (after_invalidation q d0)))
               (cache_key (secret_id d0) stage) = None) \<and>
            invalidations (secrets (after_invalidation q d0)) = Suc (invalidations (secrets d0)))"
proof (intro conjI allI impI)
  from execute_with_retry_summary [OF run] obtain n
    where sum: "loop_summary E q max_retries 0 d r d' n"
    by blast
  note parts = loop_summaryD [OF sum]
  have only: "\<forall>k. Suc k < n \<longrightarrow> auth_failed_at E q k"
    using parts(5) by simp
  have other: "\<forall>msg. 0 < n \<and> run_query E (n - 1) q = Some msg \<and> \<not> is_auth_failure msg \<longrightarrow>
      r = Inl (DownstreamError msg)"
  proof (intro allI impI)
    fix msg assume h: "0 < n \<and> run_query E (n - 1) q = Some msg \<and> \<not> is_auth_failure msg"
    then have "n \<noteq> 0" by simp
    from parts(8) [OF this] h show "r = Inl (DownstreamError msg)" by simp
  qed
  from parts(1) parts(3) parts(4) only other
  show "\<exists>n. attempts (secrets d') = attempts (secrets d) + n \<and>
            (\<forall>k. Suc k < n \<longrightarrow> auth_failed_at E q k) \<and>
            invalidations (secrets d') =
              invalidations (secrets d) + length (filter (auth_failed_at E q) [0..<n]) \<and>
            current_fetches (secret_id d) (secrets d') =
              current_fetches (secret_id d) (secrets d) +
              length (filter (\<lambda>k. auth_failed_at E q k \<and> int k < max_retries) [0..<n]) \<and>
            (\<forall>msg. 0 < n \<and> run_query E (n - 1) q = Some msg \<and> \<not> is_auth_failure msg \<longrightarrow>
               r = Inl (DownstreamError msg))"
    by (intro exI [of _ n]) simp
qed (simp_all add: retry_loop_other_failure retry_loop_retry retry_loop_last_failure
    after_query_state after_invalidation_state del: retry_loop.simps)

lemma demo_reconnect:
  "fst (connect demo_env (after_invalidation ''SELECT 1'' (init_db ''s2''))) = Inr True"
  by (simp add: connect_def try_connect_def get_both_versions_def get_secret_def
      fetch_secret_def parse_secret_def translate_error_def after_invalidation_def
      after_query_def invalidate_cache_def db_print_def print_def init_db_def init_client_def
      demo_env_def demo_store_def demo_loads_def secret_v1_def secret_v2_def cache_key_def
      Let_def)

lemma demo_retry:
  "execute_with_retry demo_env ''SELECT 1'' 2 (init_db ''s2'') =
     (Inr (PDict [(''result'', PStr ''success'')]),
      after_query ''SELECT 1''
        (snd (connect demo_env (after_invalidation ''SELECT 1'' (init_db ''s2'')))))"
proof -
  have one: "retry_loop demo_env ''SELECT 1'' 2 0 (init_db ''s2'') =
      (case connect demo_env (after_invalidation ''SELECT 1'' (init_db ''s2'')) of
         (Inl e, d4) \<Rightarrow> (Inl e, d4)
       | (Inr b, d4) \<Rightarrow> retry_loop demo_env ''SELECT 1'' 2 (0 + 1) d4)"
    by (rule retry_loop_retry [OF _ demo_first_attempt demo_auth_message]) simp_all
  have two: "retry_loop demo_env ''SELECT 1'' 2 1 d4 =
      (Inr (PDict [(''result'', PStr ''success'')]), after_query ''SELECT 1'' d4)" for d4
    by (rule retry_loop_success) (simp_all add: demo_env_def)
  show ?thesis
    unfolding execute_with_retry_def one
    by (subst pair_of_fst [OF demo_reconnect]) (simp add: two del: retry_loop.simps)
qed

theorem execute_with_retry_auth_only_witness:
  "fst (execute_with_retry demo_env ''SELECT 1'' 2 (init_db ''s2'')) =
     Inr (PDict [(''result'', PStr ''success'')]) \<and>
   auth_failed_at demo_env ''SELECT 1'' 0 \<and> \<not> auth_failed_at demo_env ''SELECT 1'' 1 \<and>
   attempts (secrets (snd (execute_with_retry demo_env ''SELECT 1'' 2 (init_db ''s2'')))) = 2 \<and>
   invalidations (secrets (snd (execute_with_retry demo_env ''SELECT 1'' 2 (init_db ''s2'')))) = 1 \<and>
   current_fetches ''s2''
     (secrets (snd (execute_with_retry demo_env ''SELECT 1'' 2 (init_db ''s2'')))) = 1"
proof -
  let ?d' = "after_query ''SELECT 1''
        (snd (connect demo_env (after_invalidation ''SELECT 1'' (init_db ''s2''))))"
  have start: "attempts (secrets (init_db ''s2'')) = 0"
    "invalidations (secrets (init_db ''s2'')) = 0"
    "current_fetches ''s2'' (secrets (init_db ''s2'')) = 0"
    "secret_id (init_db ''s2'') = ''s2''"
    by (simp_all add: init_db_def init_client_def attempts_def invalidations_def
        current_fetches_def)
  have made: "attempts (secrets ?d') = 2"
    using connect_keeps [of demo_env "after_invalidation ''SELECT 1'' (init_db ''s2'')"]
    by (simp add: after_query_state after_invalidation_state start)
  from execute_with_retry_auth_only [OF demo_retry] obtain n
    where n: "attempts (secrets ?d') = attempts (secrets (init_db ''s2'')) + n"
      and inv: "invalidations (secrets ?d') = invalidations (secrets (init_db ''s2'')) +
          length (filter (auth_failed_at demo_env ''SELECT 1'') [0..<n])"
      and fet: "current_fetches (secret_id (init_db ''s2'')) (secrets ?d') =
          current_fetches (secret_id (init_db ''s2'')) (secrets (init_db ''s2'')) +
          length (filter (\<lambda>k. auth_failed_at demo_env ''SELECT 1'' k \<and> int k < 2) [0..<n])"
    by blast
  from n made start have n2: "n = 2" by simp
  have range: "[0..<2] = [0, Suc 0]"
    by (simp add: upt_conv_Cons)
  from inv fet show ?thesis
    unfolding demo_retry n2 range
    using made demo_auth_failed_at by (simp add: start)
qed

section \<open>The simulation as shipped\<close>

text \<open>
  With the placeholders as the file has them, a query succeeds at its first attempt
  whenever the budget is not negative, a connection attempt succeeds exactly on a
  dictionary, and a negative budget runs no attempt at all.
\<close>

lemma simulated_execute_with_retry:
  "0 \<le> m \<Longrightarrow>
   execute_with_retry (simulated E) q m d =
     (Inr (PDict [(''result'', PStr ''success'')]), after_query q d)"
  unfolding execute_with_retry_def
  by (rule retry_loop_success) (simp_all add: simulated_def)

lemma simulated_try_connect:
  "fst (try_connect (simulated E) c v d) = is_dict c"
  by (simp add: try_connect_def simulated_def Let_def)

lemma negative_budget:
  "m < 0 \<Longrightarrow>
   execute_with_retry E q m d = (Inl (PyException ''Max retries exceeded''), d)"
  unfolding execute_with_retry_def
  by (rule retry_loop_done) simp

end
